theory Spec2Isabelle
  imports Complex_Main
begin

section \<open>Weight initializers of \<^verbatim>\<open>keras/initializers.py\<close>\<close>

text \<open>
  The module is embedded function by function.  Python exceptions are values of
  \<open>error\<close>; a call that raises returns \<open>Inl\<close> of the exception.  A shape is a
  tuple of dimensions, here a list of naturals (a dimension is never negative).
  Floating-point values are read as real numbers: rounding and the non-finite
  values of IEEE arithmetic are not represented.  The operator \<^verbatim>\<open>/\<close> is true
  division, as in Python 3.
\<close>

datatype error = ValueError | IndexError | ZeroDivisionError | TypeError

type_synonym shape = "nat list"

subsection \<open>Numbers\<close>

text \<open>
  Three kinds of number reach the fan statistics: a Python \<^verbatim>\<open>int\<close> (an entry of
  the shape tuple, unbounded), a numpy \<^verbatim>\<open>int64\<close> (what \<^verbatim>\<open>np.prod\<close> of a non-empty
  integer tuple returns, and any product with it; it wraps around silently) and a numpy
  \<^verbatim>\<open>float64\<close>.
\<close>

datatype scalar = PyInt int | NpInt64 int | NpFloat64 real

definition i64 :: "int \<Rightarrow> int" where
  "i64 x = (x + 2 ^ 63) mod 2 ^ 64 - 2 ^ 63"

fun as_real :: "scalar \<Rightarrow> real" where
  "as_real (PyInt i) = real_of_int i"
| "as_real (NpInt64 i) = real_of_int i"
| "as_real (NpFloat64 x) = x"

text \<open>\<^verbatim>\<open>np.prod\<close> of a tuple of integers: the product in 64-bit arithmetic.\<close>

definition np_prod :: "nat list \<Rightarrow> int" where
  "np_prod xs = foldl (\<lambda>acc d. i64 (acc * int d)) 1 xs"

subsection \<open>Fan calculator\<close>

text \<open>
  \<^verbatim>\<open>_compute_fans(shape, data_format='channels_last')\<close>.  The negative indices
  \<^verbatim>\<open>shape[-2]\<close> and \<^verbatim>\<open>shape[-1]\<close> are read in a branch where the length is at
  least 3, so they are in range.
\<close>

definition compute_fans :: "shape \<Rightarrow> string \<Rightarrow> error + (scalar \<times> scalar)" where
  "compute_fans shape data_format =
    (if length shape = 2 then
       Inr (PyInt (int (shape ! 0)), PyInt (int (shape ! 1)))
     else if length shape \<in> {3, 4, 5} then
       (if data_format = ''channels_first'' then
          (let receptive_field_size = np_prod (drop 2 shape) in
           Inr (NpInt64 (i64 (int (shape ! 1) * receptive_field_size)),
                NpInt64 (i64 (int (shape ! 0) * receptive_field_size))))
        else if data_format = ''channels_last'' then
          (let receptive_field_size = np_prod (take 2 shape) in
           Inr (NpInt64 (i64 (int (shape ! (length shape - 2)) * receptive_field_size)),
                NpInt64 (i64 (int (shape ! (length shape - 1)) * receptive_field_size))))
        else Inl ValueError)
     else
       Inr (NpFloat64 (sqrt (real_of_int (np_prod shape))),
            NpFloat64 (sqrt (real_of_int (np_prod shape)))))"

text \<open>
  The fan statistics as the specification words them for the \<^verbatim>\<open>channels_last\<close>
  layout: the receptive field is the product of the spatial dimensions
  \<^verbatim>\<open>shape[:-2]\<close>.
\<close>

definition spec_fans_channels_last :: "shape \<Rightarrow> int \<times> int" where
  "spec_fans_channels_last shape =
    (let r = prod_list (map int (take (length shape - 2) shape)) in
     (int (shape ! (length shape - 2)) * r, int (shape ! (length shape - 1)) * r))"

subsection \<open>Variance scaling\<close>

text \<open>
  \<^verbatim>\<open>str.lower()\<close> on the ASCII range: the letters A to Z move to a to z, every
  other character stays.  The letters outside ASCII that Python lower-cases as well
  neither occur in the five names the constructor compares with nor are mapped to their
  letters.
\<close>

definition lower_char :: "char \<Rightarrow> char" where
  "lower_char c =
    (case map_of (zip ''ABCDEFGHIJKLMNOPQRSTUVWXYZ'' ''abcdefghijklmnopqrstuvwxyz'') c of
       Some d \<Rightarrow> d
     | None \<Rightarrow> c)"

definition lower :: "string \<Rightarrow> string" where
  "lower s = map lower_char s"

record VarianceScaling =
  scale :: real
  mode :: string
  distribution :: string
  seed :: "int option"

text \<open>
  \<^verbatim>\<open>VarianceScaling.__init__\<close>: the three checks in the order of the source.  The
  scale is a float, as the docstring has it.
\<close>

definition VarianceScaling_init ::
  "real \<Rightarrow> string \<Rightarrow> string \<Rightarrow> int option \<Rightarrow> error + VarianceScaling" where
  "VarianceScaling_init scale' mode' distribution' seed' =
    (if scale' \<le> 0 then Inl ValueError
     else
       (let mode' = lower mode' in
        if mode' \<notin> {''fan_in'', ''fan_out'', ''fan_avg''} then Inl ValueError
        else
          (let distribution' = lower distribution' in
           if distribution' \<notin> {''normal'', ''uniform''} then Inl ValueError
           else Inr \<lparr>scale = scale', mode = mode',
                      distribution = distribution', seed = seed'\<rparr>)))"

text \<open>
  The Keras backend \<^verbatim>\<open>K\<close> is not part of the module: its primitives are the
  fields of a record.  A primitive receives the state of the process and returns a
  backend tensor together with the state it leaves.
\<close>

type_synonym dtype = "string option"

record ('t, 'w) backend =
  K_constant :: "real \<Rightarrow> shape \<Rightarrow> dtype \<Rightarrow> 'w \<Rightarrow> 't \<times> 'w"
  K_random_normal :: "shape \<Rightarrow> real \<Rightarrow> real \<Rightarrow> dtype \<Rightarrow> int option \<Rightarrow> 'w \<Rightarrow> 't \<times> 'w"
  K_random_uniform :: "shape \<Rightarrow> real \<Rightarrow> real \<Rightarrow> dtype \<Rightarrow> int option \<Rightarrow> 'w \<Rightarrow> 't \<times> 'w"
  K_truncated_normal :: "shape \<Rightarrow> real \<Rightarrow> real \<Rightarrow> dtype \<Rightarrow> int option \<Rightarrow> 'w \<Rightarrow> 't \<times> 'w"
  K_image_data_format :: string
  K_floatx :: string

text \<open>\<^verbatim>\<open>fan_in + fan_out\<close>: numpy's result type wins, and an \<^verbatim>\<open>int64\<close> sum wraps.\<close>

fun scalar_add :: "scalar \<Rightarrow> scalar \<Rightarrow> scalar" where
  "scalar_add (PyInt a) (PyInt b) = PyInt (a + b)"
| "scalar_add (PyInt a) (NpInt64 b) = NpInt64 (i64 (a + b))"
| "scalar_add (NpInt64 a) (PyInt b) = NpInt64 (i64 (a + b))"
| "scalar_add (NpInt64 a) (NpInt64 b) = NpInt64 (i64 (a + b))"
| "scalar_add a b = NpFloat64 (as_real a + as_real b)"

text \<open>
  \<^verbatim>\<open>VarianceScaling.__call__\<close>.  The fan calculator is called with its default
  layout.  The local \<^verbatim>\<open>scale\<close> after the division is \<open>scale_eff\<close>.
\<close>

definition VarianceScaling_call ::
  "('t, 'w) backend \<Rightarrow> VarianceScaling \<Rightarrow> shape \<Rightarrow> dtype \<Rightarrow> 'w \<Rightarrow> (error + 't) \<times> 'w" where
  "VarianceScaling_call K self shape dtype w =
    (case compute_fans shape ''channels_last'' of
       Inl e \<Rightarrow> (Inl e, w)
     | Inr (fan_in, fan_out) \<Rightarrow>
         (let scale_eff =
            (if mode self = ''fan_in'' then scale self / max 1 (as_real fan_in)
             else if mode self = ''fan_out'' then scale self / max 1 (as_real fan_out)
             else scale self / max 1 (as_real (scalar_add fan_in fan_out) / 2))
          in
          if distribution self = ''normal'' then
            (let stddev = sqrt scale_eff;
                 (t, w') = K_truncated_normal K shape 0 stddev dtype (VarianceScaling.seed self) w
             in (Inr t, w'))
          else
            (let limit = sqrt (3 * scale_eff);
                 (t, w') = K_random_uniform K shape (- limit) limit dtype (VarianceScaling.seed self) w
             in (Inr t, w'))))"

text \<open>The named presets.\<close>

definition lecun_uniform :: "int option \<Rightarrow> error + VarianceScaling" where
  "lecun_uniform seed' = VarianceScaling_init 1 ''fan_in'' ''uniform'' seed'"

definition glorot_normal :: "int option \<Rightarrow> error + VarianceScaling" where
  "glorot_normal seed' = VarianceScaling_init 1 ''fan_avg'' ''normal'' seed'"

definition glorot_uniform :: "int option \<Rightarrow> error + VarianceScaling" where
  "glorot_uniform seed' = VarianceScaling_init 1 ''fan_avg'' ''uniform'' seed'"

definition he_normal :: "int option \<Rightarrow> error + VarianceScaling" where
  "he_normal seed' = VarianceScaling_init 2 ''fan_in'' ''normal'' seed'"

definition he_uniform :: "int option \<Rightarrow> error + VarianceScaling" where
  "he_uniform seed' = VarianceScaling_init 2 ''fan_in'' ''uniform'' seed'"

subsection \<open>Arrays and the numpy primitives\<close>

text \<open>
  A numpy array is its shape and its elements in row-major order.  What numpy computes
  by numerical linear algebra, by a Fourier transform or from its process-wide random
  generator is a field of the record \<open>numpy\<close>: \<^verbatim>\<open>np.random.seed\<close>,
  \<^verbatim>\<open>np.random.normal\<close>, \<^verbatim>\<open>np.linalg.svd\<close> (with its \<^verbatim>\<open>full_matrices\<close>
  flag), \<^verbatim>\<open>np.fft.irfft\<close>, \<^verbatim>\<open>np.fft.irfft2\<close> and the rounding to a named
  element type.  These primitives are taken to return on the arguments the code gives
  them.  The generator state has type \<open>'g\<close>; seeding replaces it, drawing advances it.
  The remaining array operations are defined here, for the arguments the module gives
  them: arrays that hold as many elements as their shape says, element-wise operations
  on two arrays of one shape, a transpose along a permutation of the axes.
\<close>

datatype ndarray = NDArray (shape_of: "nat list") (data_of: "real list")

record 'g numpy =
  random_seed :: "int \<Rightarrow> 'g"
  normal :: "real \<Rightarrow> real \<Rightarrow> nat list \<Rightarrow> 'g \<Rightarrow> ndarray \<times> 'g"
  svd :: "ndarray \<Rightarrow> bool \<Rightarrow> ndarray \<times> ndarray \<times> ndarray"
  irfft :: "ndarray \<Rightarrow> nat option \<Rightarrow> ndarray"
  irfft2 :: "ndarray \<Rightarrow> nat list option \<Rightarrow> ndarray"
  astype :: "string \<Rightarrow> real \<Rightarrow> real"

text \<open>
  The state of the process that the module can touch: numpy's process-wide generator
  and the lines printed so far.  Anything else lives in the extension of the record.
\<close>

record 'g world =
  np_random :: 'g
  stdout :: "nat list list"

definition np_zeros :: "nat list \<Rightarrow> ndarray" where
  "np_zeros shp = NDArray shp (replicate (prod_list shp) 0)"

definition np_identity :: "nat \<Rightarrow> ndarray" where
  "np_identity n =
    NDArray [n, n] (concat (map (\<lambda>i. map (\<lambda>j. if i = j then 1 else 0) [0..<n]) [0..<n]))"

text \<open>A scalar times an array.\<close>

definition scalar_mul :: "real \<Rightarrow> ndarray \<Rightarrow> ndarray" where
  "scalar_mul c a = NDArray (shape_of a) (map (\<lambda>x. c * x) (data_of a))"

text \<open>\<^verbatim>\<open>a.reshape(shp)\<close> raises when the element counts differ.\<close>

definition reshape :: "ndarray \<Rightarrow> nat list \<Rightarrow> error + ndarray" where
  "reshape a shp =
    (if prod_list shp = length (data_of a) then Inr (NDArray shp (data_of a))
     else Inl ValueError)"

text \<open>
  \<^verbatim>\<open>q[:m, :n]\<close>: the leading corner along the first two axes.  An array with fewer
  than two axes cannot take two indices.
\<close>

definition getitem2 :: "ndarray \<Rightarrow> nat \<Rightarrow> nat \<Rightarrow> error + ndarray" where
  "getitem2 q m n =
    (case shape_of q of
       d0 # d1 # rest \<Rightarrow>
         (let inner = prod_list rest in
          Inr (NDArray (min m d0 # min n d1 # rest)
                 (concat (map (\<lambda>i. take (min n d1 * inner) (drop (i * (d1 * inner)) (data_of q)))
                            [0..<min m d0]))))
     | _ \<Rightarrow> Inl IndexError)"

text \<open>Iteration over an array yields its sub-arrays along the first axis.\<close>

definition subarrays :: "ndarray \<Rightarrow> ndarray list" where
  "subarrays a =
    (case shape_of a of
       [] \<Rightarrow> []
     | d # ds \<Rightarrow>
         map (\<lambda>i. NDArray ds (take (prod_list ds) (drop (i * prod_list ds) (data_of a)))) [0..<d])"

definition tolist :: "ndarray \<Rightarrow> real list list" where
  "tolist a = map data_of (subarrays a)"

text \<open>\<^verbatim>\<open>np.array(rows, dtype)\<close> of a list of equally long rows.\<close>

definition np_array :: "(real \<Rightarrow> real) \<Rightarrow> real list list \<Rightarrow> ndarray" where
  "np_array cast rows =
    NDArray (if rows = [] then [0] else [length rows, length (hd rows)]) (map cast (concat rows))"

text \<open>\<^verbatim>\<open>np.array(init, dtype)\<close> of a list of lists of equally shaped arrays.\<close>

definition np_array_nested :: "(real \<Rightarrow> real) \<Rightarrow> ndarray list list \<Rightarrow> ndarray" where
  "np_array_nested cast init =
    NDArray
      (if init = [] then [0]
       else if hd init = [] then [length init, 0]
       else length init # length (hd init) # shape_of (hd (hd init)))
      (map cast (concat (map (\<lambda>filters. concat (map data_of filters)) init)))"

text \<open>Multi-indices in row-major order, and \<^verbatim>\<open>a.transpose(axes)\<close>.\<close>

fun unravel :: "nat list \<Rightarrow> nat \<Rightarrow> nat list" where
  "unravel [] k = []"
| "unravel (d # ds) k = (k div prod_list ds) # unravel ds (k mod prod_list ds)"

definition ravel :: "nat list \<Rightarrow> nat list \<Rightarrow> nat" where
  "ravel shp idx = foldl (\<lambda>acc (d, i). acc * d + i) 0 (zip shp idx)"

definition nd_transpose :: "ndarray \<Rightarrow> nat list \<Rightarrow> ndarray" where
  "nd_transpose a axes =
    (let shp = shape_of a;
         new_shape = map (\<lambda>ax. shp ! ax) axes
     in NDArray new_shape
          (map (\<lambda>k. let j = unravel new_shape k;
                         i = map (\<lambda>ax. j ! length (takeWhile (\<lambda>x. x \<noteq> ax) axes)) [0..<length shp]
                     in data_of a ! ravel shp i)
               [0..<prod_list new_shape]))"

text \<open>\<^verbatim>\<open>a.T\<close> reverses the axes.\<close>

definition T :: "ndarray \<Rightarrow> ndarray" where
  "T a = nd_transpose a (rev [0..<length (shape_of a)])"

text \<open>\<^verbatim>\<open>a.diagonal()\<close> of a matrix and \<^verbatim>\<open>np.diag(v)\<close> of a vector.\<close>

definition diagonal :: "ndarray \<Rightarrow> real list" where
  "diagonal a =
    (case shape_of a of
       [r, c] \<Rightarrow> map (\<lambda>i. data_of a ! (i * c + i)) [0..<min r c]
     | _ \<Rightarrow> [])"

definition np_diag :: "real list \<Rightarrow> ndarray" where
  "np_diag v =
    NDArray [length v, length v]
      (concat (map (\<lambda>i. map (\<lambda>j. if i = j then v ! i else 0) [0..<length v]) [0..<length v]))"

text \<open>Element-wise sum and difference of two arrays of one shape.\<close>

definition nd_add :: "ndarray \<Rightarrow> ndarray \<Rightarrow> ndarray" where
  "nd_add a b = NDArray (shape_of a) (map2 (\<lambda>x y. x + y) (data_of a) (data_of b))"

definition nd_sub :: "ndarray \<Rightarrow> ndarray \<Rightarrow> ndarray" where
  "nd_sub a b = NDArray (shape_of a) (map2 (\<lambda>x y. x - y) (data_of a) (data_of b))"

text \<open>\<^verbatim>\<open>np.var\<close>: the mean squared deviation from the mean, over all elements.\<close>

definition np_var :: "ndarray \<Rightarrow> real" where
  "np_var a =
    (let xs = data_of a;
         n = real (length xs);
         mu = sum_list xs / n
     in sum_list (map (\<lambda>x. (x - mu) ^ 2) xs) / n)"

subsection \<open>Constant and distribution initializers\<close>

text \<open>
  Each class is a record of its attributes; \<open>C_init\<close> is its constructor and
  \<open>C_call\<close> its \<^verbatim>\<open>__call__\<close>.  A parameter that a Python signature names like an
  attribute carries a prime here.  \<^verbatim>\<open>Zeros\<close> and \<^verbatim>\<open>Ones\<close> have no attribute;
  the attribute \<^verbatim>\<open>value\<close> of \<^verbatim>\<open>Constant\<close> is \<open>cvalue\<close>.
\<close>

definition Zeros_call :: "('t, 'w) backend \<Rightarrow> shape \<Rightarrow> dtype \<Rightarrow> 'w \<Rightarrow> 't \<times> 'w" where
  "Zeros_call K shape dtype w = K_constant K 0 shape dtype w"

definition Ones_call :: "('t, 'w) backend \<Rightarrow> shape \<Rightarrow> dtype \<Rightarrow> 'w \<Rightarrow> 't \<times> 'w" where
  "Ones_call K shape dtype w = K_constant K 1 shape dtype w"

record Constant =
  cvalue :: real

definition Constant_init :: "real \<Rightarrow> Constant" where
  "Constant_init value' = \<lparr>cvalue = value'\<rparr>"

definition Constant_call :: "('t, 'w) backend \<Rightarrow> Constant \<Rightarrow> shape \<Rightarrow> dtype \<Rightarrow> 'w \<Rightarrow> 't \<times> 'w" where
  "Constant_call K self shape dtype w = K_constant K (cvalue self) shape dtype w"

record RandomNormal =
  mean :: real
  stddev :: real
  seed :: "int option"

definition RandomNormal_init :: "real \<Rightarrow> real \<Rightarrow> int option \<Rightarrow> RandomNormal" where
  "RandomNormal_init mean' stddev' seed' = \<lparr>mean = mean', stddev = stddev', seed = seed'\<rparr>"

definition RandomNormal_call ::
  "('t, 'w) backend \<Rightarrow> RandomNormal \<Rightarrow> shape \<Rightarrow> dtype \<Rightarrow> 'w \<Rightarrow> 't \<times> 'w" where
  "RandomNormal_call K self shape dtype w =
    K_random_normal K shape (RandomNormal.mean self) (RandomNormal.stddev self) dtype
      (RandomNormal.seed self) w"

record RandomUniform =
  minval :: real
  maxval :: real
  seed :: "int option"

definition RandomUniform_init :: "real \<Rightarrow> real \<Rightarrow> int option \<Rightarrow> RandomUniform" where
  "RandomUniform_init minval' maxval' seed' = \<lparr>minval = minval', maxval = maxval', seed = seed'\<rparr>"

definition RandomUniform_call ::
  "('t, 'w) backend \<Rightarrow> RandomUniform \<Rightarrow> shape \<Rightarrow> dtype \<Rightarrow> 'w \<Rightarrow> 't \<times> 'w" where
  "RandomUniform_call K self shape dtype w =
    K_random_uniform K shape (minval self) (maxval self) dtype (RandomUniform.seed self) w"

record TruncatedNormal =
  mean :: real
  stddev :: real
  seed :: "int option"

definition TruncatedNormal_init :: "real \<Rightarrow> real \<Rightarrow> int option \<Rightarrow> TruncatedNormal" where
  "TruncatedNormal_init mean' stddev' seed' = \<lparr>mean = mean', stddev = stddev', seed = seed'\<rparr>"

definition TruncatedNormal_call ::
  "('t, 'w) backend \<Rightarrow> TruncatedNormal \<Rightarrow> shape \<Rightarrow> dtype \<Rightarrow> 'w \<Rightarrow> 't \<times> 'w" where
  "TruncatedNormal_call K self shape dtype w =
    K_truncated_normal K shape (TruncatedNormal.mean self) (TruncatedNormal.stddev self) dtype
      (TruncatedNormal.seed self) w"

subsection \<open>Orthogonal\<close>

record Orthogonal =
  gain :: real
  seed :: "int option"

definition Orthogonal_init :: "real \<Rightarrow> int option \<Rightarrow> Orthogonal" where
  "Orthogonal_init gain' seed' = \<lparr>gain = gain', seed = seed'\<rparr>"

text \<open>
  \<^verbatim>\<open>Orthogonal.__call__\<close>.  The loop over \<^verbatim>\<open>shape[:-1]\<close> is the fold;
  \<^verbatim>\<open>shape[-1]\<close> raises on the empty tuple and \<^verbatim>\<open>shape[1]\<close> on a tuple of one
  entry.  The seeding and the draw act on the process-wide generator, and have
  happened when a later line raises.
\<close>

definition Orthogonal_call ::
  "'g numpy \<Rightarrow> Orthogonal \<Rightarrow> shape \<Rightarrow> dtype \<Rightarrow> ('g, 'z) world_scheme
     \<Rightarrow> (error + ndarray) \<times> ('g, 'z) world_scheme" where
  "Orthogonal_call np self shape dtype w =
    (let num_rows = foldl (\<lambda>num_rows dim. num_rows * dim) 1 (butlast shape) in
     if shape = [] then (Inl IndexError, w)
     else
       (let num_cols = last shape;
            flat_shape = [num_rows, num_cols];
            w1 = (case Orthogonal.seed self of
                    None \<Rightarrow> w
                  | Some s \<Rightarrow> w\<lparr>np_random := random_seed np s\<rparr>);
            (a, g) = normal np 0 1 flat_shape (np_random w1);
            w2 = w1\<lparr>np_random := g\<rparr>;
            (u, s, v) = svd np a False;
            q = (if shape_of u = flat_shape then u else v)
        in case reshape q shape of
             Inl e \<Rightarrow> (Inl e, w2)
           | Inr q \<Rightarrow>
               (if length shape < 2 then (Inl IndexError, w2)
                else
                  (case getitem2 q (shape ! 0) (shape ! 1) of
                     Inl e \<Rightarrow> (Inl e, w2)
                   | Inr corner \<Rightarrow> (Inr (scalar_mul (gain self) corner), w2)))))"

subsection \<open>Identity\<close>

record Identity =
  gain :: real

definition Identity_init :: "real \<Rightarrow> Identity" where
  "Identity_init gain' = \<lparr>gain = gain'\<rparr>"

text \<open>\<^verbatim>\<open>Identity.__call__\<close>; the \<^verbatim>\<open>or\<close> reads \<^verbatim>\<open>shape[0]\<close> only when the length is 2.\<close>

definition Identity_call :: "Identity \<Rightarrow> shape \<Rightarrow> dtype \<Rightarrow> error + ndarray" where
  "Identity_call self shape dtype =
    (if length shape \<noteq> 2 then Inl ValueError
     else if shape ! 0 \<noteq> shape ! 1 then Inl ValueError
     else Inr (scalar_mul (Identity.gain self) (np_identity (shape ! 0))))"

subsection \<open>ConvolutionAware\<close>

record ConvolutionAware =
  eps_std :: real
  seed :: "int option"
  orthogonal :: Orthogonal

text \<open>The constructor stores \<^verbatim>\<open>Orthogonal()\<close>: default gain 1 and no seed.\<close>

definition ConvolutionAware_init :: "real \<Rightarrow> int option \<Rightarrow> ConvolutionAware" where
  "ConvolutionAware_init eps_std' seed' =
    \<lparr>eps_std = eps_std', seed = seed', orthogonal = Orthogonal_init 1 None\<rparr>"

text \<open>
  \<^verbatim>\<open>2 / fan_in\<close>, as true division.  Only a Python \<^verbatim>\<open>int\<close> zero raises; numpy
  divides by its own zero without raising.
\<close>

fun true_div_2 :: "scalar \<Rightarrow> error + real" where
  "true_div_2 (PyInt i) = (if i = 0 then Inl ZeroDivisionError else Inr (2 / real_of_int i))"
| "true_div_2 (NpInt64 i) = Inr (2 / real_of_int i)"
| "true_div_2 (NpFloat64 x) = Inr (2 / x)"

definition symmetrize :: "ndarray \<Rightarrow> ndarray" where
  "symmetrize a = nd_sub (nd_add a (T a)) (np_diag (diagonal a))"

definition scale_filters :: "ndarray \<Rightarrow> real \<Rightarrow> ndarray" where
  "scale_filters filters variance =
    (let c_var = np_var filters;
         p = sqrt (variance / c_var)
     in scalar_mul p filters)"

text \<open>The loop of \<^verbatim>\<open>_create_basis\<close>: \<open>n\<close> rounds are left, \<open>li\<close> is the list so far.\<close>

fun create_basis_loop ::
  "'g numpy \<Rightarrow> nat \<Rightarrow> nat \<Rightarrow> real list list \<Rightarrow> 'g \<Rightarrow> real list list \<times> 'g" where
  "create_basis_loop np size' 0 li g = (li, g)"
| "create_basis_loop np size' (Suc n) li g =
    (let (a, g1) = normal np 0 1 [size', size'] g;
         a = symmetrize a;
         (u, s, v) = svd np a True
     in create_basis_loop np size' n (li @ tolist (T u)) g1)"

definition create_basis ::
  "'g numpy \<Rightarrow> ('t, 'w) backend \<Rightarrow> ConvolutionAware \<Rightarrow> nat \<Rightarrow> nat \<Rightarrow> 'g \<Rightarrow> ndarray \<times> 'g" where
  "create_basis np K self filters size' g =
    (if size' = 1 then normal np 0 (eps_std self) [filters, size'] g
     else
       (let nbb = filters div size' + 1;
            (li, g1) = create_basis_loop np size' nbb [] g;
            p = np_array (astype np (K_floatx K)) (take filters li)
        in (p, g1)))"

text \<open>
  The list comprehension over the rows of a basis: the transform of the row, then one
  draw of noise, row after row.
\<close>

fun make_filters ::
  "'g numpy \<Rightarrow> ConvolutionAware \<Rightarrow> (ndarray \<Rightarrow> nat list option \<Rightarrow> ndarray) \<Rightarrow> nat list
     \<Rightarrow> ndarray list \<Rightarrow> 'g \<Rightarrow> ndarray list \<times> 'g" where
  "make_filters np self correct_fft kernel_shape [] g = ([], g)"
| "make_filters np self correct_fft kernel_shape (x # xs) g =
    (let t = correct_fft x (Some kernel_shape);
         (noise, g1) = normal np 0 (eps_std self) kernel_shape g;
         (rest, g2) = make_filters np self correct_fft kernel_shape xs g1
     in (nd_add t noise # rest, g2))"

text \<open>The loop over \<^verbatim>\<open>range(filters_size)\<close>: \<open>n\<close> rounds are left.\<close>

fun filters_loop ::
  "'g numpy \<Rightarrow> ('t, 'w) backend \<Rightarrow> ConvolutionAware \<Rightarrow> (ndarray \<Rightarrow> nat list option \<Rightarrow> ndarray)
     \<Rightarrow> nat list \<Rightarrow> nat list \<Rightarrow> nat \<Rightarrow> nat \<Rightarrow> ndarray list list \<Rightarrow> 'g
     \<Rightarrow> (error + ndarray list list) \<times> 'g" where
  "filters_loop np K self correct_fft kernel_shape kernel_fourier_shape stack_size 0 init g =
    (Inr init, g)"
| "filters_loop np K self correct_fft kernel_shape kernel_fourier_shape stack_size (Suc n) init g =
    (let (basis, g1) = create_basis np K self stack_size (nat (np_prod kernel_fourier_shape)) g
     in case reshape basis (stack_size # kernel_fourier_shape) of
          Inl e \<Rightarrow> (Inl e, g1)
        | Inr basis \<Rightarrow>
            (let (filters, g2) = make_filters np self correct_fft kernel_shape (subarrays basis) g1
             in filters_loop np K self correct_fft kernel_shape kernel_fourier_shape stack_size n
                  (init @ [filters]) g2))"

text \<open>The part of \<^verbatim>\<open>__call__\<close> that the ranks 3 and 4 share, after their branches.\<close>

definition fourier_kernel ::
  "'g numpy \<Rightarrow> ('t, 'w) backend \<Rightarrow> ConvolutionAware \<Rightarrow> real
     \<Rightarrow> nat \<Rightarrow> nat \<Rightarrow> nat list \<Rightarrow> nat list \<Rightarrow> (ndarray \<Rightarrow> nat list option \<Rightarrow> ndarray)
     \<Rightarrow> ('g, 'z) world_scheme \<Rightarrow> (error + ndarray) \<times> ('g, 'z) world_scheme" where
  "fourier_kernel np K self variance stack_size filters_size transpose_dimensions kernel_shape
      correct_fft w =
    (let kernel_fourier_shape = shape_of (correct_fft (np_zeros kernel_shape) None);
         (r, g) = filters_loop np K self correct_fft kernel_shape kernel_fourier_shape stack_size
                    filters_size [] (np_random w);
         w1 = w\<lparr>np_random := g\<rparr>
     in case r of
          Inl e \<Rightarrow> (Inl e, w1)
        | Inr init \<Rightarrow>
            (let init = np_array_nested (astype np (K_floatx K)) init;
                 init = scale_filters init variance
             in (Inr (nd_transpose init transpose_dimensions), w1)))"

text \<open>
  \<^verbatim>\<open>ConvolutionAware.__call__\<close>.  The layout comes from the backend.  The attribute
  \<^verbatim>\<open>self.seed\<close> is read nowhere.  Rank 4 prints its four dimensions.
\<close>

definition ConvolutionAware_call ::
  "'g numpy \<Rightarrow> ('t, 'w) backend \<Rightarrow> ConvolutionAware \<Rightarrow> shape \<Rightarrow> ('g, 'z) world_scheme
     \<Rightarrow> (error + ndarray) \<times> ('g, 'z) world_scheme" where
  "ConvolutionAware_call np K self shape w =
    (let rank = length shape in
     case compute_fans shape (K_image_data_format K) of
       Inl e \<Rightarrow> (Inl e, w)
     | Inr (fan_in, fan_out) \<Rightarrow>
         (case true_div_2 fan_in of
            Inl e \<Rightarrow> (Inl e, w)
          | Inr variance \<Rightarrow>
              if rank = 3 then
                (let row = shape ! 0; stack_size = shape ! 1; filters_size = shape ! 2;
                     transpose_dimensions = [2, 1, 0];
                     kernel_shape = [row];
                     correct_fft = (\<lambda>x s. irfft np x (case s of None \<Rightarrow> None | Some ks \<Rightarrow> Some (ks ! 0)))
                 in fourier_kernel np K self variance stack_size filters_size transpose_dimensions
                      kernel_shape correct_fft w)
              else if rank = 4 then
                (let row = shape ! 0; column = shape ! 1; stack_size = shape ! 2;
                     filters_size = shape ! 3;
                     w1 = w\<lparr>stdout := stdout w @ [[row, column, stack_size, filters_size]]\<rparr>;
                     transpose_dimensions = [2, 3, 1, 0];
                     kernel_shape = [row, column];
                     correct_fft = irfft2 np
                 in fourier_kernel np K self variance stack_size filters_size transpose_dimensions
                      kernel_shape correct_fft w1)
              else Orthogonal_call np (orthogonal self) shape None w))"

subsection \<open>Configuration records\<close>

text \<open>
  \<^verbatim>\<open>get_config\<close> returns a dictionary from parameter names to values, here the list
  of its items.  \<^verbatim>\<open>from_config\<close> is \<^verbatim>\<open>cls(**config)\<close>: a key that is no
  parameter of the constructor raises \<^verbatim>\<open>TypeError\<close>, a missing key takes the default
  of the signature.  The attributes are typed here, so a value of another type than its
  attribute is reported as \<^verbatim>\<open>TypeError\<close> as well.
\<close>

datatype pyval = VNone | VInt int | VFloat real | VStr string

type_synonym config = "(string \<times> pyval) list"

fun to_float :: "pyval \<Rightarrow> real option" where
  "to_float (VFloat x) = Some x"
| "to_float (VInt i) = Some (real_of_int i)"
| "to_float v = None"

fun to_seed :: "pyval \<Rightarrow> int option option" where
  "to_seed VNone = Some None"
| "to_seed (VInt i) = Some (Some i)"
| "to_seed v = None"

fun to_str :: "pyval \<Rightarrow> string option" where
  "to_str (VStr s) = Some s"
| "to_str v = None"

fun seed_value :: "int option \<Rightarrow> pyval" where
  "seed_value None = VNone"
| "seed_value (Some i) = VInt i"

definition unexpected_keyword :: "string list \<Rightarrow> config \<Rightarrow> bool" where
  "unexpected_keyword params kwargs = (\<not> list_all (\<lambda>kv. fst kv \<in> set params) kwargs)"

definition kwarg :: "config \<Rightarrow> string \<Rightarrow> pyval \<Rightarrow> pyval" where
  "kwarg kwargs k dflt = (case map_of kwargs k of None \<Rightarrow> dflt | Some v \<Rightarrow> v)"

text \<open>The classes of the module and their instances.\<close>

datatype cls =
  Zeros | Ones | Constant | RandomNormal | RandomUniform | TruncatedNormal
  | VarianceScaling | Orthogonal | ConvolutionAware | Identity

datatype initializer =
  AZeros | AnOnes | AConstant Constant | ARandomNormal RandomNormal
  | ARandomUniform RandomUniform | ATruncatedNormal TruncatedNormal
  | AVarianceScaling VarianceScaling | AnOrthogonal Orthogonal
  | AConvolutionAware ConvolutionAware | AnIdentity Identity

text \<open>
  \<^verbatim>\<open>get_config\<close> of each class; \<^verbatim>\<open>Zeros\<close> and \<^verbatim>\<open>Ones\<close> inherit the empty
  dictionary of the base class.
\<close>

fun get_config :: "initializer \<Rightarrow> config" where
  "get_config AZeros = []"
| "get_config AnOnes = []"
| "get_config (AConstant self) = [(''value'', VFloat (cvalue self))]"
| "get_config (ARandomNormal self) =
    [(''mean'', VFloat (RandomNormal.mean self)),
     (''stddev'', VFloat (RandomNormal.stddev self)),
     (''seed'', seed_value (RandomNormal.seed self))]"
| "get_config (ARandomUniform self) =
    [(''minval'', VFloat (minval self)),
     (''maxval'', VFloat (maxval self)),
     (''seed'', seed_value (RandomUniform.seed self))]"
| "get_config (ATruncatedNormal self) =
    [(''mean'', VFloat (TruncatedNormal.mean self)),
     (''stddev'', VFloat (TruncatedNormal.stddev self)),
     (''seed'', seed_value (TruncatedNormal.seed self))]"
| "get_config (AVarianceScaling self) =
    [(''scale'', VFloat (scale self)),
     (''mode'', VStr (mode self)),
     (''distribution'', VStr (distribution self)),
     (''seed'', seed_value (VarianceScaling.seed self))]"
| "get_config (AnOrthogonal self) =
    [(''gain'', VFloat (Orthogonal.gain self)),
     (''seed'', seed_value (Orthogonal.seed self))]"
| "get_config (AConvolutionAware self) =
    [(''eps_std'', VFloat (eps_std self)),
     (''seed'', seed_value (ConvolutionAware.seed self))]"
| "get_config (AnIdentity self) = [(''gain'', VFloat (Identity.gain self))]"

text \<open>The constructor call \<^verbatim>\<open>cls(**kwargs)\<close>, with the defaults of each signature.\<close>

fun construct :: "cls \<Rightarrow> config \<Rightarrow> error + initializer" where
  "construct Zeros kwargs = (if kwargs \<noteq> [] then Inl TypeError else Inr AZeros)"
| "construct Ones kwargs = (if kwargs \<noteq> [] then Inl TypeError else Inr AnOnes)"
| "construct Constant kwargs =
    (if unexpected_keyword [''value''] kwargs then Inl TypeError
     else case to_float (kwarg kwargs ''value'' (VInt 0)) of
            Some v \<Rightarrow> Inr (AConstant (Constant_init v))
          | None \<Rightarrow> Inl TypeError)"
| "construct RandomNormal kwargs =
    (if unexpected_keyword [''mean'', ''stddev'', ''seed''] kwargs then Inl TypeError
     else case (to_float (kwarg kwargs ''mean'' (VFloat 0)),
                to_float (kwarg kwargs ''stddev'' (VFloat (5 / 100))),
                to_seed (kwarg kwargs ''seed'' VNone)) of
            (Some m, Some s, Some sd) \<Rightarrow> Inr (ARandomNormal (RandomNormal_init m s sd))
          | _ \<Rightarrow> Inl TypeError)"
| "construct RandomUniform kwargs =
    (if unexpected_keyword [''minval'', ''maxval'', ''seed''] kwargs then Inl TypeError
     else case (to_float (kwarg kwargs ''minval'' (VFloat (- (5 / 100)))),
                to_float (kwarg kwargs ''maxval'' (VFloat (5 / 100))),
                to_seed (kwarg kwargs ''seed'' VNone)) of
            (Some lo, Some hi, Some sd) \<Rightarrow> Inr (ARandomUniform (RandomUniform_init lo hi sd))
          | _ \<Rightarrow> Inl TypeError)"
| "construct TruncatedNormal kwargs =
    (if unexpected_keyword [''mean'', ''stddev'', ''seed''] kwargs then Inl TypeError
     else case (to_float (kwarg kwargs ''mean'' (VFloat 0)),
                to_float (kwarg kwargs ''stddev'' (VFloat (5 / 100))),
                to_seed (kwarg kwargs ''seed'' VNone)) of
            (Some m, Some s, Some sd) \<Rightarrow> Inr (ATruncatedNormal (TruncatedNormal_init m s sd))
          | _ \<Rightarrow> Inl TypeError)"
| "construct VarianceScaling kwargs =
    (if unexpected_keyword [''scale'', ''mode'', ''distribution'', ''seed''] kwargs then Inl TypeError
     else case (to_float (kwarg kwargs ''scale'' (VFloat 1)),
                to_str (kwarg kwargs ''mode'' (VStr ''fan_in'')),
                to_str (kwarg kwargs ''distribution'' (VStr ''normal'')),
                to_seed (kwarg kwargs ''seed'' VNone)) of
            (Some s, Some m, Some d, Some sd) \<Rightarrow>
              (case VarianceScaling_init s m d sd of
                 Inl e \<Rightarrow> Inl e
               | Inr self \<Rightarrow> Inr (AVarianceScaling self))
          | _ \<Rightarrow> Inl TypeError)"
| "construct Orthogonal kwargs =
    (if unexpected_keyword [''gain'', ''seed''] kwargs then Inl TypeError
     else case (to_float (kwarg kwargs ''gain'' (VFloat 1)),
                to_seed (kwarg kwargs ''seed'' VNone)) of
            (Some g, Some sd) \<Rightarrow> Inr (AnOrthogonal (Orthogonal_init g sd))
          | _ \<Rightarrow> Inl TypeError)"
| "construct ConvolutionAware kwargs =
    (if unexpected_keyword [''eps_std'', ''seed''] kwargs then Inl TypeError
     else case (to_float (kwarg kwargs ''eps_std'' (VFloat (5 / 100))),
                to_seed (kwarg kwargs ''seed'' VNone)) of
            (Some e, Some sd) \<Rightarrow> Inr (AConvolutionAware (ConvolutionAware_init e sd))
          | _ \<Rightarrow> Inl TypeError)"
| "construct Identity kwargs =
    (if unexpected_keyword [''gain''] kwargs then Inl TypeError
     else case to_float (kwarg kwargs ''gain'' (VFloat 1)) of
            Some g \<Rightarrow> Inr (AnIdentity (Identity_init g))
          | None \<Rightarrow> Inl TypeError)"

definition from_config :: "cls \<Rightarrow> config \<Rightarrow> error + initializer" where
  "from_config c config = construct c config"

text \<open>
  \<^verbatim>\<open>initializer(shape)\<close>: the call of an instance on a shape goes to the
  \<^verbatim>\<open>__call__\<close> of its class, with \<^verbatim>\<open>dtype\<close> at its default where the
  signature has it.  The distribution classes return a backend tensor, the others a
  numpy array.
\<close>

datatype 't tensor = BackendTensor 't | NumpyArray ndarray

fun call ::
  "'g numpy \<Rightarrow> ('t, ('g, 'z) world_scheme) backend \<Rightarrow> initializer \<Rightarrow> shape
     \<Rightarrow> ('g, 'z) world_scheme \<Rightarrow> (error + 't tensor) \<times> ('g, 'z) world_scheme" where
  "call np K AZeros shape w =
    (let (t, w') = Zeros_call K shape None w in (Inr (BackendTensor t), w'))"
| "call np K AnOnes shape w =
    (let (t, w') = Ones_call K shape None w in (Inr (BackendTensor t), w'))"
| "call np K (AConstant self) shape w =
    (let (t, w') = Constant_call K self shape None w in (Inr (BackendTensor t), w'))"
| "call np K (ARandomNormal self) shape w =
    (let (t, w') = RandomNormal_call K self shape None w in (Inr (BackendTensor t), w'))"
| "call np K (ARandomUniform self) shape w =
    (let (t, w') = RandomUniform_call K self shape None w in (Inr (BackendTensor t), w'))"
| "call np K (ATruncatedNormal self) shape w =
    (let (t, w') = TruncatedNormal_call K self shape None w in (Inr (BackendTensor t), w'))"
| "call np K (AVarianceScaling self) shape w =
    (let (r, w') = VarianceScaling_call K self shape None w in (map_sum id BackendTensor r, w'))"
| "call np K (AnOrthogonal self) shape w =
    (let (r, w') = Orthogonal_call np self shape None w in (map_sum id NumpyArray r, w'))"
| "call np K (AConvolutionAware self) shape w =
    (let (r, w') = ConvolutionAware_call np K self shape w in (map_sum id NumpyArray r, w'))"
| "call np K (AnIdentity self) shape w =
    (map_sum id NumpyArray (Identity_call self shape None), w)"

subsection \<open>A symbolic backend and a counting generator\<close>

text \<open>
  Two instances of the interfaces, on which the model runs.  The symbolic backend
  returns the request it was given, as a graph backend does.  The counting numpy keeps
  a counter as generator state: seeding sets it, a draw of \<open>n\<close> elements returns the
  next \<open>n\<close> counter values, shifted and scaled, and advances it by \<open>n\<close>.  Its
  decomposition is the trivial factorisation of a matrix into itself and an identity,
  in the shapes of the reduced decomposition, and its transforms return zeros of the
  output shape.
\<close>

datatype sym_tensor =
  SymConstant real shape dtype
  | SymRandomNormal shape real real dtype "int option"
  | SymRandomUniform shape real real dtype "int option"
  | SymTruncatedNormal shape real real dtype "int option"

definition symbolic_backend :: "(sym_tensor, 'w) backend" where
  "symbolic_backend =
    \<lparr>K_constant = (\<lambda>v shape dtype w. (SymConstant v shape dtype, w)),
     K_random_normal = (\<lambda>shape m s dtype sd w. (SymRandomNormal shape m s dtype sd, w)),
     K_random_uniform = (\<lambda>shape lo hi dtype sd w. (SymRandomUniform shape lo hi dtype sd, w)),
     K_truncated_normal = (\<lambda>shape m s dtype sd w. (SymTruncatedNormal shape m s dtype sd, w)),
     K_image_data_format = ''channels_last'',
     K_floatx = ''float32''\<rparr>"

definition counting_normal :: "real \<Rightarrow> real \<Rightarrow> nat list \<Rightarrow> nat \<Rightarrow> ndarray \<times> nat" where
  "counting_normal loc sc shp g =
    (NDArray shp (map (\<lambda>i. loc + sc * real (g + i)) [0..<prod_list shp]), g + prod_list shp)"

definition trivial_svd :: "ndarray \<Rightarrow> bool \<Rightarrow> ndarray \<times> ndarray \<times> ndarray" where
  "trivial_svd a full_matrices =
    (case shape_of a of
       [m, n] \<Rightarrow>
         (if n \<le> m then (a, NDArray [n] (replicate n 1), np_identity n)
          else (np_identity m, NDArray [m] (replicate m 1), a))
     | _ \<Rightarrow> (a, a, a))"

definition zero_irfft :: "ndarray \<Rightarrow> nat option \<Rightarrow> ndarray" where
  "zero_irfft x n =
    np_zeros (butlast (shape_of x) @
      [case n of None \<Rightarrow> 2 * (last (shape_of x) - 1) | Some k \<Rightarrow> k])"

definition zero_irfft2 :: "ndarray \<Rightarrow> nat list option \<Rightarrow> ndarray" where
  "zero_irfft2 x s =
    np_zeros
      (case s of
         None \<Rightarrow> butlast (shape_of x) @ [2 * (last (shape_of x) - 1)]
       | Some ks \<Rightarrow> take (length (shape_of x) - 2) (shape_of x) @ ks)"

definition counting_numpy :: "nat numpy" where
  "counting_numpy =
    \<lparr>random_seed = (\<lambda>s. nat s),
     normal = counting_normal,
     svd = trivial_svd,
     irfft = zero_irfft,
     irfft2 = zero_irfft2,
     astype = (\<lambda>dt x. x)\<rparr>"

definition world0 :: "nat world" where
  "world0 = \<lparr>np_random = 0, stdout = []\<rparr>"

text \<open>
  A second numpy, for running the properties that rest on the orthogonality of the
  factors: its decomposition returns, for every matrix, the leading columns and rows of
  identity matrices, which have the shapes of the reduced decomposition, orthonormal
  columns and orthonormal rows.
\<close>

definition np_eye :: "nat \<Rightarrow> nat \<Rightarrow> ndarray" where
  "np_eye m n =
    NDArray [m, n] (concat (map (\<lambda>i. map (\<lambda>j. if i = j then 1 else 0) [0..<n]) [0..<m]))"

definition eye_svd :: "ndarray \<Rightarrow> bool \<Rightarrow> ndarray \<times> ndarray \<times> ndarray" where
  "eye_svd a full_matrices =
    (case shape_of a of
       [m, n] \<Rightarrow> (np_eye m (min m n), NDArray [min m n] (replicate (min m n) 1), np_eye (min m n) n)
     | _ \<Rightarrow> (a, a, a))"

definition eye_numpy :: "nat numpy" where
  "eye_numpy = counting_numpy\<lparr>svd := eye_svd\<rparr>"

text \<open>
  The shapes that numpy's documentation gives the results of a draw and of the reduced
  decomposition of an \<open>m\<close> by \<open>n\<close> matrix; each array holds as many elements as its
  shape says.
\<close>

definition numpy_shapes :: "'g numpy \<Rightarrow> bool" where
  "numpy_shapes np =
    ((\<forall>loc sc shp g.
        shape_of (fst (normal np loc sc shp g)) = shp
        \<and> length (data_of (fst (normal np loc sc shp g))) = prod_list shp)
     \<and> (\<forall>a m n u s v.
          shape_of a = [m, n] \<longrightarrow> length (data_of a) = m * n \<longrightarrow> svd np a False = (u, s, v) \<longrightarrow>
            shape_of u = [m, min m n] \<and> length (data_of u) = m * min m n
            \<and> shape_of v = [min m n, n] \<and> length (data_of v) = min m n * n))"

text \<open>
  For a matrix \<open>Q\<close> of shape \<open>[m, n]\<close>: \<open>gram Q\<close> is the transpose of \<open>Q\<close> times \<open>Q\<close>, and
  \<open>gram_rows Q\<close> is \<open>Q\<close> times its transpose.
\<close>

definition gram :: "ndarray \<Rightarrow> ndarray" where
  "gram q =
    (case shape_of q of
       [m, n] \<Rightarrow>
         NDArray [n, n]
           (concat (map (\<lambda>j. map (\<lambda>k. sum_list (map (\<lambda>i. data_of q ! (i * n + j) * data_of q ! (i * n + k)) [0..<m]))
                                  [0..<n]) [0..<n]))
     | _ \<Rightarrow> q)"

definition gram_rows :: "ndarray \<Rightarrow> ndarray" where
  "gram_rows q =
    (case shape_of q of
       [m, n] \<Rightarrow>
         NDArray [m, m]
           (concat (map (\<lambda>i. map (\<lambda>l. sum_list (map (\<lambda>j. data_of q ! (i * n + j) * data_of q ! (l * n + j)) [0..<n]))
                                  [0..<m]) [0..<m]))
     | _ \<Rightarrow> q)"

text \<open>
  What the reduced decomposition \<open>(u, s, v)\<close> of an \<open>m\<close> by \<open>n\<close> matrix promises
  beyond its shapes: the columns of \<open>u\<close> are orthonormal (\<open>gram u\<close> is the identity of
  size \<open>min m n\<close>), and so are the rows of \<open>v\<close> (\<open>gram_rows v\<close> is that identity).
\<close>

definition numpy_svd_orthonormal :: "'g numpy \<Rightarrow> bool" where
  "numpy_svd_orthonormal np =
    (\<forall>a m n u s v.
       shape_of a = [m, n] \<longrightarrow> length (data_of a) = m * n \<longrightarrow> svd np a False = (u, s, v) \<longrightarrow>
         gram u = np_identity (min m n) \<and> gram_rows v = np_identity (min m n))"

text \<open>
  The orthogonality invariant of the result of \<^verbatim>\<open>Orthogonal\<close> on a shape of rank
  2: a matrix \<open>Q\<close> of shape \<open>[m, n]\<close> whose columns are orthonormal when it has at least
  as many rows as columns, and whose rows are orthonormal otherwise.
\<close>

definition orthogonality_invariant :: "error + ndarray \<Rightarrow> bool" where
  "orthogonality_invariant r =
    (case r of
       Inl e \<Rightarrow> False
     | Inr q \<Rightarrow>
         (case shape_of q of
            [m, n] \<Rightarrow> (if n \<le> m then gram q = np_identity n else gram_rows q = np_identity m)
          | _ \<Rightarrow> False))"

text \<open>
  A shape as the data model has it: at least one dimension, every dimension positive.
\<close>

definition valid_shape :: "shape \<Rightarrow> bool" where
  "valid_shape shape = (shape \<noteq> [] \<and> list_all (\<lambda>d. 0 < d) shape)"

text \<open>
  A valid shape of fewer than \<open>2 ^ 31\<close> elements: on such a shape no \<^verbatim>\<open>int64\<close>
  product or sum of the fan calculator wraps around.
\<close>

definition small_shape :: "shape \<Rightarrow> bool" where
  "small_shape shape = (valid_shape shape \<and> prod_list shape < 2 ^ 31)"

text \<open>
  The sum \<^verbatim>\<open>fan_in + fan_out\<close> is exact: it is a sum of Python integers or of
  floats, or a sum with an \<^verbatim>\<open>int64\<close> that stays within the 64 bits.
\<close>

fun sum_fits_int64 :: "scalar \<Rightarrow> scalar \<Rightarrow> bool" where
  "sum_fits_int64 (PyInt a) (PyInt b) = True"
| "sum_fits_int64 (PyInt a) (NpInt64 b) = (- (2 ^ 63) \<le> a + b \<and> a + b < 2 ^ 63)"
| "sum_fits_int64 (NpInt64 a) (PyInt b) = (- (2 ^ 63) \<le> a + b \<and> a + b < 2 ^ 63)"
| "sum_fits_int64 (NpInt64 a) (NpInt64 b) = (- (2 ^ 63) \<le> a + b \<and> a + b < 2 ^ 63)"
| "sum_fits_int64 a b = True"



text \<open>The effective scale as the specification words it, one case for each mode.\<close>

definition spec_effective_scale :: "real \<Rightarrow> string \<Rightarrow> real \<Rightarrow> real \<Rightarrow> real option" where
  "spec_effective_scale s m fan_in fan_out =
    (if m = ''fan_in'' then Some (s / max 1 fan_in)
     else if m = ''fan_out'' then Some (s / max 1 fan_out)
     else if m = ''fan_avg'' then Some (s / max 1 ((fan_in + fan_out) / 2))
     else None)"

text \<open>The matrix \<open>g\<close> times the \<open>n\<close> by \<open>n\<close> identity, written out: \<open>g\<close> on the diagonal, 0 elsewhere.\<close>

definition scaled_identity :: "real \<Rightarrow> nat \<Rightarrow> ndarray" where
  "scaled_identity g n =
     NDArray [n, n] (concat (map (\<lambda>i. map (\<lambda>j. if i = j then g else 0) [0..<n]) [0..<n]))"

section \<open>Properties\<close>

subsection \<open>Arithmetic of the fan calculator\<close>

lemma i64_id: "- (2 ^ 63) \<le> x \<Longrightarrow> x < 2 ^ 63 \<Longrightarrow> i64 x = x"
  by (simp add: i64_def)

lemma i64_nat: "n < 2 ^ 63 \<Longrightarrow> i64 (int n) = int n"
proof (rule i64_id)
  show "- (2 ^ 63) \<le> int n" by simp
  assume "n < 2 ^ 63"
  then have "int n < int (2 ^ 63)" by (simp only: of_nat_less_iff)
  then show "int n < 2 ^ 63" by simp
qed

lemma np_prod_snoc: "np_prod (xs @ [x]) = i64 (np_prod xs * int x)"
  by (simp add: np_prod_def)

lemma prod_list_pos: "list_all (\<lambda>d. 0 < d) xs \<Longrightarrow> 0 < prod_list (xs :: nat list)"
  by (induction xs) auto

text \<open>Without wrap-around \<^verbatim>\<open>np.prod\<close> is the product.\<close>

lemma np_prod_exact:
  "list_all (\<lambda>d. 0 < d) xs \<Longrightarrow> prod_list xs < 2 ^ 63 \<Longrightarrow> np_prod xs = int (prod_list xs)"
proof (induction xs rule: rev_induct)
  case Nil
  then show ?case by (simp add: np_prod_def)
next
  case (snoc x xs)
  from snoc.prems have pos: "list_all (\<lambda>d. 0 < d) xs" and x: "0 < x" by simp_all
  from snoc.prems have bound: "prod_list xs * x < 2 ^ 63" by simp
  have "prod_list xs \<le> prod_list xs * x" using x by simp
  with bound have "prod_list xs < 2 ^ 63" by linarith
  with snoc.IH pos have IH: "np_prod xs = int (prod_list xs)" by simp
  from bound have "i64 (int (prod_list xs * x)) = int (prod_list xs * x)" by (rule i64_nat)
  then show ?case
    by (simp add: np_prod_snoc IH)
qed

lemma prod_list_take_le:
  "list_all (\<lambda>d. 0 < d) xs \<Longrightarrow> prod_list (take k xs) \<le> prod_list (xs :: nat list)"
proof -
  assume pos: "list_all (\<lambda>d. 0 < d) xs"
  have "list_all (\<lambda>d. 0 < d) (drop k xs)" using pos
    by (metis append_take_drop_id list_all_append)
  then have "0 < prod_list (drop k xs)" by (rule prod_list_pos)
  moreover have "prod_list xs = prod_list (take k xs) * prod_list (drop k xs)"
    by (metis append_take_drop_id prod_list.append)
  ultimately show ?thesis by simp
qed

lemma nth_le_prod_list:
  "list_all (\<lambda>d. 0 < d) xs \<Longrightarrow> i < length xs \<Longrightarrow> xs ! i \<le> prod_list (xs :: nat list)"
proof (induction xs arbitrary: i)
  case Nil
  then show ?case by simp
next
  case (Cons x xs)
  have p: "0 < prod_list xs" using Cons.prems(1) by (simp add: prod_list_pos)
  have x: "1 \<le> x" using Cons.prems(1) by simp
  show ?case
  proof (cases i)
    case 0
    then show ?thesis using p by simp
  next
    case (Suc j)
    then have "xs ! j \<le> prod_list xs" using Cons by simp
    also have "prod_list xs \<le> x * prod_list xs" using x by simp
    finally show ?thesis using Suc by simp
  qed
qed

lemma mult_bound_62:
  assumes "a \<le> p" "r \<le> p" "p < (2::nat) ^ 31"
  shows "a * r < 2 ^ 62"
proof -
  have "a * r \<le> p * p" using assms(1,2) by (rule mult_le_mono)
  moreover have "p \<le> 2147483647" using assms(3) by simp
  then have "p * p \<le> 2147483647 * 2147483647" by (intro mult_le_mono)
  ultimately show ?thesis by simp
qed

text \<open>The fans of a convolution kernel of a small shape, in the \<^verbatim>\<open>channels_last\<close> layout.\<close>

lemma conv_fans:
  assumes v: "small_shape shape" and len: "length shape \<in> {3, 4, 5}"
  shows "\<exists>m n. compute_fans shape ''channels_last'' = Inr (NpInt64 (int m), NpInt64 (int n))
           \<and> 1 \<le> m \<and> m < 2 ^ 62 \<and> 1 \<le> n \<and> n < 2 ^ 62"
proof -
  define p where "p = prod_list shape"
  define r where "r = prod_list (take 2 shape)"
  define a where "a = shape ! (length shape - 2)"
  define b where "b = shape ! (length shape - 1)"
  from v have pos: "list_all (\<lambda>d. 0 < d) shape" and p: "p < 2 ^ 31"
    by (simp_all add: small_shape_def valid_shape_def p_def)
  have post: "list_all (\<lambda>d. 0 < d) (take 2 shape)" using pos
    by (metis append_take_drop_id list_all_append)
  have rp: "r \<le> p" unfolding r_def p_def using pos by (rule prod_list_take_le)
  have r1: "1 \<le> r" using prod_list_pos [OF post] by (simp add: r_def)
  have "r < 2 ^ 63" using rp p by simp
  then have npr: "np_prod (take 2 shape) = int r"
    unfolding r_def using post by (simp add: np_prod_exact)
  have ia: "length shape - 2 < length shape" and ib: "length shape - 1 < length shape"
    using len by auto
  have ap: "a \<le> p" unfolding a_def p_def using pos ia by (rule nth_le_prod_list)
  have bp: "b \<le> p" unfolding b_def p_def using pos ib by (rule nth_le_prod_list)
  have a1: "1 \<le> a" using pos ia unfolding a_def by (simp add: list_all_length Suc_leI)
  have b1: "1 \<le> b" using pos ib unfolding b_def by (simp add: list_all_length Suc_leI)
  have ar: "a * r < 2 ^ 62" using ap rp p by (rule mult_bound_62)
  have br: "b * r < 2 ^ 62" using bp rp p by (rule mult_bound_62)
  have "a * r < 2 ^ 63" using ar by simp
  then have ea: "i64 (int (a * r)) = int (a * r)" by (rule i64_nat)
  have "b * r < 2 ^ 63" using br by simp
  then have eb: "i64 (int (b * r)) = int (b * r)" by (rule i64_nat)
  have l2: "length shape \<noteq> 2" using len by auto
  have "compute_fans shape ''channels_last'' = Inr (NpInt64 (int (a * r)), NpInt64 (int (b * r)))"
    using len l2 ea eb by (simp add: compute_fans_def npr a_def b_def Let_def)
  moreover have "1 \<le> a * r" "1 \<le> b * r" using a1 b1 r1 by (simp_all add: Suc_leI)
  ultimately show ?thesis using ar br by blast
qed

text \<open>On a small shape both fans are at least 1 and their sum does not wrap.\<close>

lemma small_shape_fans:
  assumes v: "small_shape shape"
  shows "\<exists>fan_in fan_out. compute_fans shape ''channels_last'' = Inr (fan_in, fan_out)
           \<and> 1 \<le> as_real fan_in \<and> 1 \<le> as_real fan_out
           \<and> as_real (scalar_add fan_in fan_out) = as_real fan_in + as_real fan_out"
proof -
  from v have pos: "list_all (\<lambda>d. 0 < d) shape" and p: "prod_list shape < 2 ^ 31"
    by (simp_all add: small_shape_def valid_shape_def)
  consider (dense) "length shape = 2" | (conv) "length shape \<in> {3, 4, 5}"
    | (other) "length shape \<noteq> 2" "length shape \<notin> {3, 4, 5}" by blast
  then show ?thesis
  proof cases
    case dense
    then have "0 < shape ! 0" "0 < shape ! 1" using pos by (simp_all add: list_all_length)
    then show ?thesis using dense by (simp add: compute_fans_def)
  next
    case conv
    from conv_fans [OF v conv] obtain m n where
      f: "compute_fans shape ''channels_last'' = Inr (NpInt64 (int m), NpInt64 (int n))"
      and m: "1 \<le> m" "m < 2 ^ 62" and n: "1 \<le> n" "n < 2 ^ 62" by blast
    have "m + n < 2 ^ 63" using m n by simp
    then have "i64 (int (m + n)) = int (m + n)" by (rule i64_nat)
    then have "as_real (scalar_add (NpInt64 (int m)) (NpInt64 (int n)))
                 = as_real (NpInt64 (int m)) + as_real (NpInt64 (int n))" by simp
    moreover have "1 \<le> as_real (NpInt64 (int m))" "1 \<le> as_real (NpInt64 (int n))"
      using m n by simp_all
    ultimately show ?thesis using f by blast
  next
    case other
    have "prod_list shape < 2 ^ 63" using p by simp
    with pos have e: "np_prod shape = int (prod_list shape)" by (rule np_prod_exact)
    have "1 \<le> prod_list shape" using prod_list_pos [OF pos] by simp
    then have "1 \<le> sqrt (real (prod_list shape))" by simp
    then show ?thesis using other by (simp add: compute_fans_def e)
  qed
qed

lemma small_shape_dense: "small_shape [64, 128]"
  by (simp add: small_shape_def valid_shape_def)

lemma small_shape_conv: "small_shape [3, 3, 16, 32]"
  by (simp add: small_shape_def valid_shape_def)

text \<open>
  C1.  For the \<^verbatim>\<open>channels_last\<close> layout the code multiplies by the product of
  \<^verbatim>\<open>shape[:2]\<close>, not of the spatial dimensions \<^verbatim>\<open>shape[:-2]\<close>.  On the
  one-dimensional kernel \<^verbatim>\<open>(3, 16, 32)\<close> it returns \<open>(768, 1536)\<close>, where the
  stated fans are \<open>(16 * 3, 32 * 3) = (48, 96)\<close>; on the three-dimensional kernel
  \<^verbatim>\<open>(3, 3, 3, 16, 32)\<close> it returns \<open>(144, 288)\<close>, where the stated fans are
  \<open>(16 * 27, 32 * 27) = (432, 864)\<close>.
\<close>

theorem compute_fans_channels_last_rank3:
  "compute_fans [3, 16, 32] ''channels_last'' = Inr (NpInt64 768, NpInt64 1536)
   \<and> spec_fans_channels_last [3, 16, 32] = (48, 96)
   \<and> compute_fans [3, 3, 3, 16, 32] ''channels_last'' = Inr (NpInt64 144, NpInt64 288)
   \<and> spec_fans_channels_last [3, 3, 3, 16, 32] = (432, 864)"
  by (simp add: compute_fans_def np_prod_def i64_def spec_fans_channels_last_def)

text \<open>
  On rank 4 the two slices coincide: the code returns the stated fans on every small
  shape, among them the example \<^verbatim>\<open>(3, 3, 16, 32)\<close> of the specification.
\<close>

lemma compute_fans_channels_last_rank4:
  assumes v: "small_shape shape" and len: "length shape = 4"
  shows "compute_fans shape ''channels_last''
           = Inr (NpInt64 (fst (spec_fans_channels_last shape)),
                  NpInt64 (snd (spec_fans_channels_last shape)))"
proof -
  define r where "r = prod_list (take 2 shape)"
  from v have pos: "list_all (\<lambda>d. 0 < d) shape" and p: "prod_list shape < 2 ^ 31"
    by (simp_all add: small_shape_def valid_shape_def)
  have post: "list_all (\<lambda>d. 0 < d) (take 2 shape)" using pos
    by (metis append_take_drop_id list_all_append)
  have rp: "r \<le> prod_list shape" unfolding r_def using pos by (rule prod_list_take_le)
  then have "r < 2 ^ 63" using p by simp
  then have npr: "np_prod (take 2 shape) = int r"
    unfolding r_def using post by (simp add: np_prod_exact)
  have ap: "shape ! 2 \<le> prod_list shape" "shape ! 3 \<le> prod_list shape"
    using pos len by (simp_all add: nth_le_prod_list)
  have "shape ! 2 * r < 2 ^ 62" using ap(1) rp p by (rule mult_bound_62)
  then have "shape ! 2 * r < 2 ^ 63" by simp
  then have ea: "i64 (int (shape ! 2 * r)) = int (shape ! 2 * r)" by (rule i64_nat)
  have "shape ! 3 * r < 2 ^ 62" using ap(2) rp p by (rule mult_bound_62)
  then have "shape ! 3 * r < 2 ^ 63" by simp
  then have eb: "i64 (int (shape ! 3 * r)) = int (shape ! 3 * r)" by (rule i64_nat)
  have "prod_list (map int xs) = int (prod_list xs)" for xs
    by (induction xs) simp_all
  then have "prod_list (map int (take 2 shape)) = int r"
    by (simp add: r_def)
  then show ?thesis
    using len ea eb by (simp add: compute_fans_def npr spec_fans_channels_last_def Let_def)
qed

lemma compute_fans_examples:
  "compute_fans [64, 128] ''channels_last'' = Inr (PyInt 64, PyInt 128)
   \<and> compute_fans [3, 3, 16, 32] ''channels_last'' = Inr (NpInt64 (3 * 3 * 16), NpInt64 (3 * 3 * 32))"
  by (simp add: compute_fans_def np_prod_def i64_def)

subsection \<open>Variance scaling\<close>

lemma lower_names:
  "lower ''fan_in'' = ''fan_in''" "lower ''fan_out'' = ''fan_out''" "lower ''fan_avg'' = ''fan_avg''"
  "lower ''uniform'' = ''uniform''" "lower ''normal'' = ''normal''"
  by (simp_all add: lower_def lower_char_def)

lemma VarianceScaling_init_eq:
  "VarianceScaling_init s m d sd =
     (if s \<le> 0 \<or> lower m \<notin> {''fan_in'', ''fan_out'', ''fan_avg''}
          \<or> lower d \<notin> {''normal'', ''uniform''}
      then Inl ValueError
      else Inr \<lparr>scale = s, mode = lower m, distribution = lower d, seed = sd\<rparr>)"
  by (simp add: VarianceScaling_init_def Let_def)

lemma vs_example:
  "VarianceScaling_init 2 ''FAN_AVG'' ''Normal'' (Some 3)
     = Inr \<lparr>scale = 2, mode = ''fan_avg'', distribution = ''normal'', seed = Some 3\<rparr>"
  by (simp add: VarianceScaling_init_def lower_def lower_char_def)

text \<open>The sum of two fans that \<open>sum_fits_int64\<close> admits is the sum of their values.\<close>

lemma sum_fits_int64_exact:
  "sum_fits_int64 a b \<Longrightarrow> as_real (scalar_add a b) = as_real a + as_real b"
  by (cases a; cases b) (simp_all add: i64_id)

lemma compute_fans_default_layout:
  "\<exists>fan_in fan_out. compute_fans shape ''channels_last'' = Inr (fan_in, fan_out)"
  by (simp add: compute_fans_def Let_def)

lemma vs_avg_example:
  "VarianceScaling_init 1 ''fan_avg'' ''normal'' None
     = Inr \<lparr>scale = 1, mode = ''fan_avg'', distribution = ''normal'', seed = None\<rparr>"
  by (simp add: VarianceScaling_init_def lower_def lower_char_def)

lemma fans_wrapping_shape:
  "compute_fans [1, 3037000499, 2] ''channels_last''
     = Inr (NpInt64 9223372030926249001, NpInt64 6074000998)"
  by (simp add: compute_fans_def np_prod_def i64_def)

lemma fans_square:
  "compute_fans [50000, 50000] ''channels_last'' = Inr (PyInt 50000, PyInt 50000)"
  by (simp add: compute_fans_def)

text \<open>
  C3, as the code has it.  On every shape, a call of a constructed
  \<^verbatim>\<open>VarianceScaling\<close> takes the fans from the fan calculator.  In the modes
  \<^verbatim>\<open>fan_in\<close> and \<^verbatim>\<open>fan_out\<close>, and in the mode \<^verbatim>\<open>fan_avg\<close> whenever the sum
  of the two fans is exact (it always is on rank 2 and on the ranks outside 3 to 5,
  and on ranks 3 to 5 as long as the \<^verbatim>\<open>int64\<close> sum stays within 64 bits), it
  divides the scale by \<open>max 1 fan_in\<close>, \<open>max 1 fan_out\<close> or
  \<open>max 1 ((fan_in + fan_out) / 2)\<close> and asks the backend for a truncated normal
  sample of mean 0 and standard deviation \<open>sqrt eff\<close>, or for a uniform sample
  between \<open>- sqrt (3 * eff)\<close> and \<open>sqrt (3 * eff)\<close>, with the seed of the instance.
\<close>

theorem VarianceScaling_call_spec:
  assumes init: "VarianceScaling_init s m d sd = Inr self"
  shows "\<exists>fan_in fan_out.
           compute_fans shape ''channels_last'' = Inr (fan_in, fan_out)
         \<and> (distribution self = ''normal'' \<or> distribution self = ''uniform'')
         \<and> ((mode self = ''fan_avg'' \<longrightarrow> sum_fits_int64 fan_in fan_out) \<longrightarrow>
              (\<exists>eff.
                 spec_effective_scale (scale self) (mode self) (as_real fan_in) (as_real fan_out) = Some eff
               \<and> VarianceScaling_call K self shape dtype w =
                   (if distribution self = ''normal''
                    then (let (t, w') = K_truncated_normal K shape 0 (sqrt eff) dtype (VarianceScaling.seed self) w
                          in (Inr t, w'))
                    else (let (t, w') = K_random_uniform K shape (- sqrt (3 * eff)) (sqrt (3 * eff)) dtype
                                          (VarianceScaling.seed self) w
                          in (Inr t, w')))))"
proof -
  from init have md: "mode self \<in> {''fan_in'', ''fan_out'', ''fan_avg''}"
    and dd: "distribution self \<in> {''normal'', ''uniform''}"
    by (auto simp: VarianceScaling_init_def Let_def split: if_splits)
  from compute_fans_default_layout obtain fan_in fan_out where
    f: "compute_fans shape ''channels_last'' = Inr (fan_in, fan_out)" by blast
  have "\<exists>eff.
           spec_effective_scale (scale self) (mode self) (as_real fan_in) (as_real fan_out) = Some eff
         \<and> VarianceScaling_call K self shape dtype w =
             (if distribution self = ''normal''
              then (let (t, w') = K_truncated_normal K shape 0 (sqrt eff) dtype (VarianceScaling.seed self) w
                    in (Inr t, w'))
              else (let (t, w') = K_random_uniform K shape (- sqrt (3 * eff)) (sqrt (3 * eff)) dtype
                                    (VarianceScaling.seed self) w
                    in (Inr t, w')))"
    if fits: "mode self = ''fan_avg'' \<longrightarrow> sum_fits_int64 fan_in fan_out"
  proof -
    have s: "as_real (scalar_add fan_in fan_out) = as_real fan_in + as_real fan_out"
      if "mode self = ''fan_avg''"
      using fits that by (simp add: sum_fits_int64_exact)
    from md obtain eff where
      e: "spec_effective_scale (scale self) (mode self) (as_real fan_in) (as_real fan_out) = Some eff"
      by (auto simp: spec_effective_scale_def)
    have "VarianceScaling_call K self shape dtype w =
             (if distribution self = ''normal''
              then (let (t, w') = K_truncated_normal K shape 0 (sqrt eff) dtype (VarianceScaling.seed self) w
                    in (Inr t, w'))
              else (let (t, w') = K_random_uniform K shape (- sqrt (3 * eff)) (sqrt (3 * eff)) dtype
                                    (VarianceScaling.seed self) w
                    in (Inr t, w')))"
      using md e s by (auto simp: VarianceScaling_call_def f spec_effective_scale_def Let_def split: if_splits)
    with e show ?thesis by blast
  qed
  with f dd show ?thesis by blast
qed

theorem VarianceScaling_call_spec_witness:
  "VarianceScaling_init 1 ''fan_avg'' ''normal'' None
     = Inr \<lparr>scale = 1, mode = ''fan_avg'', distribution = ''normal'', seed = None\<rparr>
   \<and> compute_fans [50000, 50000] ''channels_last'' = Inr (PyInt 50000, PyInt 50000)
   \<and> sum_fits_int64 (PyInt 50000) (PyInt 50000)
   \<and> spec_effective_scale 1 ''fan_avg'' 50000 50000 = Some (1 / 50000)
   \<and> VarianceScaling_call symbolic_backend
        \<lparr>scale = 1, mode = ''fan_avg'', distribution = ''normal'', seed = None\<rparr>
        [50000, 50000] None world0
       = (Inr (SymTruncatedNormal [50000, 50000] 0 (sqrt (1 / 50000)) None None), world0)"
  using VarianceScaling_call_spec [OF vs_avg_example, of "[50000, 50000]" symbolic_backend None world0]
    vs_avg_example fans_square
  by (auto simp: symbolic_backend_def spec_effective_scale_def)

text \<open>
  C3, as stated, fails on a valid shape whose fans add up beyond 64 bits.  On
  \<^verbatim>\<open>(1, 3037000499, 2)\<close> the fans are 9223372030926249001 and 6074000998, their
  \<^verbatim>\<open>int64\<close> sum wraps to a negative number, and in the mode \<^verbatim>\<open>fan_avg\<close> with
  scale 1 the call asks for the standard deviation 1, where the stated formula gives
  \<open>sqrt (2 / 9223372037000249999)\<close>.
\<close>

theorem VarianceScaling_fan_avg_wraps:
  "valid_shape [1, 3037000499, 2]
   \<and> compute_fans [1, 3037000499, 2] ''channels_last''
       = Inr (NpInt64 9223372030926249001, NpInt64 6074000998)
   \<and> VarianceScaling_init 1 ''fan_avg'' ''normal'' None
       = Inr \<lparr>scale = 1, mode = ''fan_avg'', distribution = ''normal'', seed = None\<rparr>
   \<and> VarianceScaling_call symbolic_backend
        \<lparr>scale = 1, mode = ''fan_avg'', distribution = ''normal'', seed = None\<rparr>
        [1, 3037000499, 2] None world0
       = (Inr (SymTruncatedNormal [1, 3037000499, 2] 0 1 None None), world0)
   \<and> spec_effective_scale 1 ''fan_avg'' 9223372030926249001 6074000998
       = Some (2 / 9223372037000249999)
   \<and> sqrt (2 / 9223372037000249999) \<noteq> 1"
proof -
  have "VarianceScaling_call symbolic_backend
        \<lparr>scale = 1, mode = ''fan_avg'', distribution = ''normal'', seed = None\<rparr>
        [1, 3037000499, 2] None world0
       = (Inr (SymTruncatedNormal [1, 3037000499, 2] 0 1 None None), world0)"
    unfolding VarianceScaling_call_def fans_wrapping_shape
    by (simp add: i64_def symbolic_backend_def Let_def)
  moreover have "spec_effective_scale 1 ''fan_avg'' 9223372030926249001 6074000998
       = Some (2 / 9223372037000249999)"
    by (simp add: spec_effective_scale_def)
  moreover have "sqrt (2 / 9223372037000249999) \<noteq> 1"
    by (simp add: real_sqrt_eq_1_iff)
  ultimately show ?thesis
    using fans_wrapping_shape vs_avg_example by (simp add: valid_shape_def)
qed

text \<open>
  C4.  The constructor of \<^verbatim>\<open>VarianceScaling\<close> raises \<^verbatim>\<open>ValueError\<close> exactly when
  the scale is not positive, or the lower-cased mode is none of \<^verbatim>\<open>fan_in\<close>,
  \<^verbatim>\<open>fan_out\<close>, \<^verbatim>\<open>fan_avg\<close>, or the lower-cased distribution is none of
  \<^verbatim>\<open>normal\<close>, \<^verbatim>\<open>uniform\<close>; for every other argument it returns the instance,
  holding the lower-cased names.
\<close>

theorem VarianceScaling_init_fails_iff:
  "VarianceScaling_init s m d sd =
     (if s \<le> 0 \<or> lower m \<notin> {''fan_in'', ''fan_out'', ''fan_avg''}
          \<or> lower d \<notin> {''normal'', ''uniform''}
      then Inl ValueError
      else Inr \<lparr>scale = s, mode = lower m, distribution = lower d, seed = sd\<rparr>)"
  by (simp add: VarianceScaling_init_def Let_def)

theorem VarianceScaling_init_fails_iff_witness:
  "VarianceScaling_init 1 ''Fan_In'' ''UNIFORM'' None
     = Inr \<lparr>scale = 1, mode = ''fan_in'', distribution = ''uniform'', seed = None\<rparr>
   \<and> VarianceScaling_init (- 1) ''fan_in'' ''uniform'' None = Inl ValueError
   \<and> VarianceScaling_init 1 ''fan'' ''uniform'' None = Inl ValueError
   \<and> VarianceScaling_init 1 ''fan_in'' ''gaussian'' None = Inl ValueError"
  using VarianceScaling_init_fails_iff [of 1 "''Fan_In''" "''UNIFORM''" None]
    VarianceScaling_init_fails_iff [of "- 1" "''fan_in''" "''uniform''" None]
    VarianceScaling_init_fails_iff [of 1 "''fan''" "''uniform''" None]
    VarianceScaling_init_fails_iff [of 1 "''fan_in''" "''gaussian''" None]
  by (simp add: lower_def lower_char_def)

text \<open>
  C8.  Each preset is the \<^verbatim>\<open>VarianceScaling\<close> instance of a fixed scale, mode and
  distribution, with the seed it was given.  On a valid shape of fewer than \<open>2 ^ 31\<close>
  elements \<^verbatim>\<open>he_uniform\<close> therefore asks the backend for a uniform sample between \<open>- sqrt (6 / fan_in)\<close> and
  \<open>sqrt (6 / fan_in)\<close>.
\<close>

theorem presets_are_VarianceScaling:
  "lecun_uniform sd = Inr \<lparr>scale = 1, mode = ''fan_in'', distribution = ''uniform'', seed = sd\<rparr>
   \<and> glorot_normal sd = Inr \<lparr>scale = 1, mode = ''fan_avg'', distribution = ''normal'', seed = sd\<rparr>
   \<and> glorot_uniform sd = Inr \<lparr>scale = 1, mode = ''fan_avg'', distribution = ''uniform'', seed = sd\<rparr>
   \<and> he_normal sd = Inr \<lparr>scale = 2, mode = ''fan_in'', distribution = ''normal'', seed = sd\<rparr>
   \<and> he_uniform sd = Inr \<lparr>scale = 2, mode = ''fan_in'', distribution = ''uniform'', seed = sd\<rparr>
   \<and> (small_shape shape \<longrightarrow>
        (\<exists>self fan_in fan_out.
           he_uniform sd = Inr self
         \<and> compute_fans shape ''channels_last'' = Inr (fan_in, fan_out)
         \<and> VarianceScaling_call K self shape dtype w =
             (let limit = sqrt (6 / as_real fan_in);
                  (t, w') = K_random_uniform K shape (- limit) limit dtype sd w
              in (Inr t, w'))))"
proof -
  have he: "he_uniform sd = Inr \<lparr>scale = 2, mode = ''fan_in'', distribution = ''uniform'', seed = sd\<rparr>"
    by (simp add: he_uniform_def VarianceScaling_init_def lower_names)
  have call: "\<exists>self fan_in fan_out.
           he_uniform sd = Inr self
         \<and> compute_fans shape ''channels_last'' = Inr (fan_in, fan_out)
         \<and> VarianceScaling_call K self shape dtype w =
             (let limit = sqrt (6 / as_real fan_in);
                  (t, w') = K_random_uniform K shape (- limit) limit dtype sd w
              in (Inr t, w'))" if v: "small_shape shape"
  proof -
    from small_shape_fans [OF v] obtain fan_in fan_out where
      f: "compute_fans shape ''channels_last'' = Inr (fan_in, fan_out)"
      and one: "1 \<le> as_real fan_in" by blast
    have m: "max 1 (as_real fan_in) = as_real fan_in" using one by simp
    have "VarianceScaling_call K \<lparr>scale = 2, mode = ''fan_in'', distribution = ''uniform'', seed = sd\<rparr>
            shape dtype w =
             (let limit = sqrt (6 / as_real fan_in);
                  (t, w') = K_random_uniform K shape (- limit) limit dtype sd w
              in (Inr t, w'))"
      by (simp add: VarianceScaling_call_def f m Let_def)
    with he f show ?thesis by blast
  qed
  show ?thesis
    using he call
    by (simp add: lecun_uniform_def glorot_normal_def glorot_uniform_def he_normal_def
        VarianceScaling_init_def lower_names)
qed

theorem presets_are_VarianceScaling_witness:
  "small_shape [64, 128]
   \<and> he_uniform (Some 7) = Inr \<lparr>scale = 2, mode = ''fan_in'', distribution = ''uniform'', seed = Some 7\<rparr>
   \<and> (\<exists>self fan_in fan_out.
           he_uniform (Some 7) = Inr self
         \<and> compute_fans [64, 128] ''channels_last'' = Inr (fan_in, fan_out)
         \<and> VarianceScaling_call symbolic_backend self [64, 128] None world0 =
             (Inr (SymRandomUniform [64, 128] (- sqrt (6 / as_real fan_in)) (sqrt (6 / as_real fan_in))
                     None (Some 7)), world0))"
  using presets_are_VarianceScaling [of "Some 7" "[64, 128]" symbolic_backend None world0]
    small_shape_dense
  by (auto simp: symbolic_backend_def Let_def)

subsection \<open>Identity\<close>

lemma scalar_mul_identity: "scalar_mul g (np_identity n) = scaled_identity g n"
proof -
  have "(\<lambda>x. g * x) \<circ> (\<lambda>j. if i = j then 1 else 0) = (\<lambda>j. if i = j then g else 0)" for i :: nat
    by (rule ext) simp
  then show ?thesis
    by (simp add: scalar_mul_def np_identity_def scaled_identity_def map_concat comp_def)
qed

lemma nth_concat_rows:
  "\<forall>xs \<in> set xss. length xs = n \<Longrightarrow> i < length xss \<Longrightarrow> j < n
     \<Longrightarrow> concat xss ! (i * n + j) = xss ! i ! j"
proof (induction xss arbitrary: i)
  case Nil
  then show ?case by simp
next
  case (Cons xs xss)
  show ?case
  proof (cases i)
    case 0
    then show ?thesis using Cons.prems by (simp add: nth_append)
  next
    case (Suc k)
    then have "concat xss ! (k * n + j) = xss ! k ! j" using Cons by simp
    moreover have "length xs = n" using Cons.prems by simp
    ultimately show ?thesis using Suc by (simp add: nth_append)
  qed
qed

text \<open>The entry of \<open>scaled_identity g n\<close> in row \<open>i\<close> and column \<open>j\<close>.\<close>

lemma scaled_identity_entry:
  assumes "i < n" "j < n"
  shows "data_of (scaled_identity g n) ! (i * n + j) = (if i = j then g else 0)"
proof -
  have "concat (map (\<lambda>i. map (\<lambda>j. if i = j then g else 0) [0..<n]) [0..<n]) ! (i * n + j)
        = (map (\<lambda>i. map (\<lambda>j. if i = j then g else 0) [0..<n]) [0..<n]) ! i ! j"
    using assms by (intro nth_concat_rows) auto
  then show ?thesis using assms by (simp add: scaled_identity_def)
qed

text \<open>
  C7.  A call of \<^verbatim>\<open>Identity(gain=g)\<close> returns \<open>g\<close> times the identity matrix of
  size \<open>shape[0]\<close> when the shape has length 2 and two equal entries, and raises
  \<^verbatim>\<open>ValueError\<close>, returning no array, on every other shape.
\<close>

theorem Identity_call_iff:
  "Identity_call (Identity_init g) shape dtype =
     (if length shape = 2 \<and> shape ! 0 = shape ! 1
      then Inr (scaled_identity g (shape ! 0))
      else Inl ValueError)"
  by (simp add: Identity_call_def Identity_init_def scalar_mul_identity)

theorem Identity_call_iff_witness:
  "Identity_call (Identity_init 3) [2, 2] None = Inr (NDArray [2, 2] [3, 0, 0, 3])
   \<and> Identity_call (Identity_init 3) [2, 3] None = Inl ValueError
   \<and> Identity_call (Identity_init 3) [2] None = Inl ValueError
   \<and> Identity_call (Identity_init 3) [2, 2, 2] None = Inl ValueError"
  using Identity_call_iff [of 3 "[2, 2]" None] Identity_call_iff [of 3 "[2, 3]" None]
    Identity_call_iff [of 3 "[2]" None] Identity_call_iff [of 3 "[2, 2, 2]" None]
  by (simp add: scaled_identity_def upt_rec)

subsection \<open>Configuration round trip\<close>

lemma VarianceScaling_init_again:
  assumes "VarianceScaling_init s m d sd = Inr self"
  shows "VarianceScaling_init (scale self) (mode self) (distribution self) (VarianceScaling.seed self)
           = Inr self"
proof -
  from assms have s: "\<not> s \<le> 0" and m: "lower m \<in> {''fan_in'', ''fan_out'', ''fan_avg''}"
    and d: "lower d \<in> {''normal'', ''uniform''}"
    and self: "self = \<lparr>scale = s, mode = lower m, distribution = lower d, seed = sd\<rparr>"
    by (auto simp: VarianceScaling_init_eq split: if_splits)
  from m have lm: "lower (lower m) = lower m" by (auto simp: lower_names)
  from d have ld: "lower (lower d) = lower d" by (auto simp: lower_names)
  have "VarianceScaling_init s (lower m) (lower d) sd = Inr self"
    unfolding VarianceScaling_init_eq lm ld using s m d self by simp
  then show ?thesis by (simp add: self)
qed

lemma to_seed_value: "to_seed (seed_value sd) = Some sd"
  by (cases sd) simp_all

lemmas init_defs = Constant_init_def RandomNormal_init_def RandomUniform_init_def
  TruncatedNormal_init_def Orthogonal_init_def ConvolutionAware_init_def Identity_init_def

lemmas kw_defs = from_config_def unexpected_keyword_def kwarg_def to_seed_value

text \<open>An instance that a constructor returned is rebuilt from its own configuration.\<close>

lemma from_config_get_config:
  assumes "construct c kwargs = Inr i"
  shows "from_config c (get_config i) = Inr i"
proof (cases c)
  case Zeros
  with assms have "i = AZeros" by (simp split: if_splits)
  then show ?thesis using Zeros by (simp add: kw_defs)
next
  case Ones
  with assms have "i = AnOnes" by (simp split: if_splits)
  then show ?thesis using Ones by (simp add: kw_defs)
next
  case Constant
  with assms obtain v where "i = AConstant (Constant_init v)"
    by (auto split: if_splits option.splits)
  then show ?thesis using Constant by (simp add: kw_defs init_defs)
next
  case RandomNormal
  with assms obtain m s sd where "i = ARandomNormal (RandomNormal_init m s sd)"
    by (auto split: if_splits option.splits)
  then show ?thesis using RandomNormal by (simp add: kw_defs init_defs)
next
  case RandomUniform
  with assms obtain lo hi sd where "i = ARandomUniform (RandomUniform_init lo hi sd)"
    by (auto split: if_splits option.splits)
  then show ?thesis using RandomUniform by (simp add: kw_defs init_defs)
next
  case TruncatedNormal
  with assms obtain m s sd where "i = ATruncatedNormal (TruncatedNormal_init m s sd)"
    by (auto split: if_splits option.splits)
  then show ?thesis using TruncatedNormal by (simp add: kw_defs init_defs)
next
  case VarianceScaling
  with assms obtain s m d sd self where
    init: "VarianceScaling_init s m d sd = Inr self" and i: "i = AVarianceScaling self"
    by (auto split: if_splits option.splits sum.splits)
  show ?thesis using VarianceScaling_init_again [OF init]
    by (simp add: VarianceScaling i kw_defs)
next
  case Orthogonal
  with assms obtain g sd where "i = AnOrthogonal (Orthogonal_init g sd)"
    by (auto split: if_splits option.splits)
  then show ?thesis using Orthogonal by (simp add: kw_defs init_defs)
next
  case ConvolutionAware
  with assms obtain e sd where "i = AConvolutionAware (ConvolutionAware_init e sd)"
    by (auto split: if_splits option.splits)
  then show ?thesis using ConvolutionAware by (simp add: kw_defs init_defs)
next
  case Identity
  with assms obtain g where "i = AnIdentity (Identity_init g)"
    by (auto split: if_splits option.splits)
  then show ?thesis using Identity by (simp add: kw_defs init_defs)
qed

lemma construct_example:
  "construct VarianceScaling [(''scale'', VFloat 2), (''mode'', VStr ''FAN_OUT'')]
     = Inr (AVarianceScaling \<lparr>scale = 2, mode = ''fan_out'', distribution = ''normal'', seed = None\<rparr>)"
  by (simp add: unexpected_keyword_def kwarg_def VarianceScaling_init_def lower_def lower_char_def)

text \<open>
  C9.  For every class and every assignment of constructor parameters that the
  constructor accepts, \<^verbatim>\<open>from_config\<close> on the \<^verbatim>\<open>get_config\<close> of the instance
  returns an instance, and the \<^verbatim>\<open>get_config\<close> of that instance is the first
  configuration.
\<close>

theorem config_round_trip:
  assumes "construct c kwargs = Inr i"
  shows "\<exists>i'. from_config c (get_config i) = Inr i' \<and> get_config i' = get_config i"
  using from_config_get_config [OF assms] by simp

theorem config_round_trip_witness:
  "construct VarianceScaling [(''scale'', VFloat 2), (''mode'', VStr ''FAN_OUT'')]
     = Inr (AVarianceScaling \<lparr>scale = 2, mode = ''fan_out'', distribution = ''normal'', seed = None\<rparr>)
   \<and> (\<exists>i'. from_config VarianceScaling
              [(''scale'', VFloat 2), (''mode'', VStr ''fan_out''),
               (''distribution'', VStr ''normal''), (''seed'', VNone)] = Inr i'
          \<and> get_config i' =
              [(''scale'', VFloat 2), (''mode'', VStr ''fan_out''),
               (''distribution'', VStr ''normal''), (''seed'', VNone)])"
  using config_round_trip [OF construct_example] construct_example
  by simp

subsection \<open>Orthogonal\<close>

text \<open>The call on a non-empty shape, with the tuples of the source taken apart.\<close>

lemma Orthogonal_call_eq:
  "shape \<noteq> [] \<Longrightarrow>
   Orthogonal_call np self shape dtype w =
    (let flat_shape = [foldl (\<lambda>num_rows dim. num_rows * dim) 1 (butlast shape), last shape];
         g0 = (case Orthogonal.seed self of None \<Rightarrow> np_random w | Some s \<Rightarrow> random_seed np s);
         d = normal np 0 1 flat_shape g0;
         f = svd np (fst d) False;
         q = (if shape_of (fst f) = flat_shape then fst f else snd (snd f));
         w2 = w\<lparr>np_random := snd d\<rparr>
     in case reshape q shape of
          Inl e \<Rightarrow> (Inl e, w2)
        | Inr q \<Rightarrow>
            (if length shape < 2 then (Inl IndexError, w2)
             else (case getitem2 q (shape ! 0) (shape ! 1) of
                     Inl e \<Rightarrow> (Inl e, w2)
                   | Inr corner \<Rightarrow> (Inr (scalar_mul (Orthogonal.gain self) corner), w2))))"
  by (cases "Orthogonal.seed self")
    (simp_all add: Orthogonal_call_def Let_def split_beta cong: sum.case_cong if_cong)

lemma Orthogonal_call_rank_lt_2:
  assumes "length shape < 2"
  shows "fst (Orthogonal_call np self shape dtype w) = Inl IndexError
         \<or> fst (Orthogonal_call np self shape dtype w) = Inl ValueError"
  using assms
  by (auto simp: Orthogonal_call_def Let_def reshape_def split: prod.splits sum.splits if_splits)

lemma Orthogonal_call_Inr_rank:
  assumes "fst (Orthogonal_call np self shape dtype w) = Inr t"
  shows "2 \<le> length shape"
proof (rule ccontr)
  assume "\<not> 2 \<le> length shape"
  then have "length shape < 2" by simp
  from Orthogonal_call_rank_lt_2 [OF this, of np self dtype w] assms show False by auto
qed

lemma Orthogonal_call_rank_1:
  assumes np: "numpy_shapes np" and len: "length shape = 1"
  shows "fst (Orthogonal_call np self shape dtype w) = Inl IndexError"
proof -
  from len obtain n where shape: "shape = [n]" by (cases shape) auto
  define g0 where "g0 = (case Orthogonal.seed self of None \<Rightarrow> np_random w | Some s \<Rightarrow> random_seed np s)"
  define a where "a = fst (normal np 0 1 [1, n] g0)"
  define u where "u = fst (svd np a False)"
  define v where "v = snd (snd (svd np a False))"
  have usv: "svd np a False = (u, fst (snd (svd np a False)), v)" by (simp add: u_def v_def)
  have sa: "shape_of a = [1, n]" and la: "length (data_of a) = 1 * n"
    using np by (simp_all add: numpy_shapes_def a_def)
  from np sa la usv have u: "shape_of u = [1, min 1 n]" "length (data_of u) = 1 * min 1 n"
    and v: "shape_of v = [min 1 n, n]" "length (data_of v) = min 1 n * n"
    unfolding numpy_shapes_def by blast+
  define q where "q = (if shape_of u = [1, n] then u else v)"
  have "length (data_of q) = n"
  proof (cases "shape_of u = [1, n]")
    case True
    then show ?thesis using u by (simp add: q_def)
  next
    case False
    then have "n \<noteq> 0" using u by (auto simp: min_def split: if_splits)
    then show ?thesis using False v by (simp add: q_def min_def)
  qed
  then have r: "reshape q [n] = Inr (NDArray [n] (data_of q))" by (simp add: reshape_def)
  have "Orthogonal_call np self [n] dtype w
          = (Inl IndexError, w\<lparr>np_random := snd (normal np 0 1 [1, n] g0)\<rparr>)"
    using r unfolding q_def u_def v_def a_def g0_def
    by (simp add: Orthogonal_call_eq Let_def cong: if_cong)
  then show ?thesis by (simp add: shape)
qed

lemma length_np_identity: "length (data_of (np_identity n)) = n * n"
  by (simp add: np_identity_def length_concat comp_def sum_list_triv)

lemma numpy_shapes_counting: "numpy_shapes counting_numpy"
  by (auto simp: numpy_shapes_def counting_numpy_def counting_normal_def trivial_svd_def
      length_np_identity split: if_splits)
     (simp_all add: np_identity_def)

text \<open>The counting numpy on the shape \<^verbatim>\<open>(2, 2)\<close>: the draw itself comes back.\<close>

lemma Orthogonal_counting_2x2:
  "Orthogonal_call counting_numpy (Orthogonal_init 1 sd) [2, 2] None (w :: nat world) =
     (let g = (case sd of None \<Rightarrow> np_random w | Some s \<Rightarrow> nat s)
      in (Inr (NDArray [2, 2] [real g, real g + 1, real g + 2, real g + 3]),
          w\<lparr>np_random := g + 4\<rparr>))"
  by (cases sd)
    (simp_all add: Orthogonal_call_def Orthogonal_init_def counting_numpy_def counting_normal_def
      trivial_svd_def reshape_def getitem2_def scalar_mul_def upt_rec Let_def)

text \<open>
  C10.  A call of \<^verbatim>\<open>Orthogonal\<close> that returns an array was given a shape of length
  at least 2.  On a shape of length 1 the flattening is defined (one row, \<open>shape[0]\<close>
  columns), yet the call raises; when numpy returns arrays of the documented shapes
  the exception is the \<^verbatim>\<open>IndexError\<close> of \<^verbatim>\<open>shape[1]\<close>.
\<close>

theorem Orthogonal_call_needs_rank_2:
  "(\<forall>t. fst (Orthogonal_call np self shape dtype w) = Inr t \<longrightarrow> 2 \<le> length shape)
   \<and> (length shape = 1 \<longrightarrow>
        foldl (\<lambda>num_rows dim. num_rows * dim) 1 (butlast shape) = 1
      \<and> last shape = shape ! 0
      \<and> (\<exists>e. fst (Orthogonal_call np self shape dtype w) = Inl e)
      \<and> (numpy_shapes np \<longrightarrow> fst (Orthogonal_call np self shape dtype w) = Inl IndexError))"
proof -
  have "foldl (\<lambda>num_rows dim. num_rows * dim) 1 (butlast shape) = 1 \<and> last shape = shape ! 0"
    if "length shape = 1"
  proof -
    from that obtain n where "shape = [n]" by (cases shape) auto
    then show ?thesis by simp
  qed
  moreover have "\<exists>e. fst (Orthogonal_call np self shape dtype w) = Inl e" if "length shape = 1"
    using Orthogonal_call_rank_lt_2 [of shape np self dtype w] that by auto
  ultimately show ?thesis
    using Orthogonal_call_Inr_rank [of np self shape dtype w]
      Orthogonal_call_rank_1 [of np shape self dtype w]
    by blast
qed

theorem Orthogonal_call_needs_rank_2_witness:
  "fst (Orthogonal_call counting_numpy (Orthogonal_init 1 None) [2, 2] None world0)
     = Inr (NDArray [2, 2] [0, 1, 2, 3])
   \<and> 2 \<le> length [2 :: nat, 2]
   \<and> length [5 :: nat] = 1
   \<and> numpy_shapes counting_numpy
   \<and> fst (Orthogonal_call counting_numpy (Orthogonal_init 1 None) [5] None world0) = Inl IndexError"
  using Orthogonal_call_needs_rank_2 [of counting_numpy "Orthogonal_init 1 None" "[2, 2]" None world0]
    Orthogonal_call_needs_rank_2 [of counting_numpy "Orthogonal_init 1 None" "[5]" None world0]
    numpy_shapes_counting
  by (simp add: Orthogonal_counting_2x2 world0_def)

text \<open>With a seed set, the array that \<^verbatim>\<open>Orthogonal\<close> returns does not depend on the generator state before the call.\<close>

lemma Orthogonal_seeded_deterministic:
  "fst (Orthogonal_call np (Orthogonal_init g (Some s)) shape dtype w)
     = fst (Orthogonal_call np (Orthogonal_init g (Some s)) shape dtype w')"
proof (cases "shape = []")
  case True
  then show ?thesis by (simp add: Orthogonal_call_def)
next
  case False
  then show ?thesis
    by (simp add: Orthogonal_call_eq Orthogonal_init_def Let_def split: sum.splits)
qed


text \<open>
  On a shape of rank 2 the reshape and the corner return the selected factor itself, and
  with orthonormal factors the result of gain 1 has the orthogonality invariant.
\<close>

lemma concat_chunks_take:
  "m * n \<le> length xs \<Longrightarrow> concat (map (\<lambda>i. take n (drop (i * n) xs)) [0..<m]) = take (m * n) xs"
proof (induction m)
  case 0
  then show ?case by simp
next
  case (Suc m)
  then have "concat (map (\<lambda>i. take n (drop (i * n) xs)) [0..<m]) = take (m * n) xs" by simp
  then have "concat (map (\<lambda>i. take n (drop (i * n) xs)) [0..<Suc m])
               = take (m * n) xs @ take n (drop (m * n) xs)" by simp
  also have "\<dots> = take (m * n + n) xs" by (simp only: take_add)
  also have "m * n + n = Suc m * n" by simp
  finally show ?case .
qed

lemma concat_chunks:
  "length xs = m * n \<Longrightarrow> concat (map (\<lambda>i. take n (drop (i * n) xs)) [0..<m]) = xs"
  by (simp add: concat_chunks_take)

lemma getitem2_whole:
  assumes "shape_of q = [m, n]" "length (data_of q) = m * n"
  shows "getitem2 q m n = Inr q"
proof -
  have "concat (map (\<lambda>i. take n (drop (i * n) (data_of q))) [0..<m]) = data_of q"
    using assms(2) by (rule concat_chunks)
  then have "getitem2 q m n = Inr (NDArray [m, n] (data_of q))"
    using assms(1) by (simp add: getitem2_def)
  moreover have "NDArray [m, n] (data_of q) = q" using assms(1) by (cases q) simp
  ultimately show ?thesis by simp
qed

lemma reshape_same:
  assumes "shape_of q = shp" "length (data_of q) = prod_list shp"
  shows "reshape q shp = Inr q"
  using assms by (cases q) (simp add: reshape_def)

lemma scalar_mul_one: "scalar_mul 1 q = q"
  by (cases q) (simp add: scalar_mul_def)

text \<open>The factor that Orthogonal selects on a shape of rank 2.\<close>

lemma Orthogonal_call_rank_2:
  assumes np: "numpy_shapes np"
  shows "\<exists>u s v g.
           svd np (fst (normal np 0 1 [m, n]
                         (case Orthogonal.seed self of None \<Rightarrow> np_random w | Some s \<Rightarrow> random_seed np s)))
             False = (u, s, v)
         \<and> shape_of (fst (normal np 0 1 [m, n]
                         (case Orthogonal.seed self of None \<Rightarrow> np_random w | Some s \<Rightarrow> random_seed np s)))
             = [m, n]
         \<and> length (data_of (fst (normal np 0 1 [m, n]
                         (case Orthogonal.seed self of None \<Rightarrow> np_random w | Some s \<Rightarrow> random_seed np s))))
             = m * n
         \<and> Orthogonal_call np self [m, n] dtype w
             = (Inr (scalar_mul (Orthogonal.gain self) (if n \<le> m then u else v)),
                w\<lparr>np_random := g\<rparr>)"
proof -
  define g0 where "g0 = (case Orthogonal.seed self of None \<Rightarrow> np_random w | Some s \<Rightarrow> random_seed np s)"
  define a where "a = fst (normal np 0 1 [m, n] g0)"
  define u where "u = fst (svd np a False)"
  define v where "v = snd (snd (svd np a False))"
  have usv: "svd np a False = (u, fst (snd (svd np a False)), v)" by (simp add: u_def v_def)
  have sa: "shape_of a = [m, n]" and la: "length (data_of a) = m * n"
    using np by (simp_all add: numpy_shapes_def a_def)
  from np sa la usv have u: "shape_of u = [m, min m n]" "length (data_of u) = m * min m n"
    and v: "shape_of v = [min m n, n]" "length (data_of v) = min m n * n"
    unfolding numpy_shapes_def by blast+
  define q where "q = (if shape_of u = [m, n] then u else v)"
  have qq: "q = (if n \<le> m then u else v)" using u by (auto simp: q_def min_def)
  have sq: "shape_of q = [m, n]" and lq: "length (data_of q) = m * n"
    using u v by (auto simp: qq min_def)
  have r: "reshape q [m, n] = Inr q" using sq lq by (simp add: reshape_same)
  have gi: "getitem2 q m n = Inr q" using sq lq by (rule getitem2_whole)
  have "Orthogonal_call np self [m, n] dtype w
          = (Inr (scalar_mul (Orthogonal.gain self) q), w\<lparr>np_random := snd (normal np 0 1 [m, n] g0)\<rparr>)"
    using r gi unfolding q_def u_def v_def a_def g0_def
    by (simp add: Orthogonal_call_eq Let_def cong: if_cong)
  then show ?thesis using usv sa la unfolding qq a_def g0_def by blast
qed

lemma Orthogonal_call_orthogonal:
  assumes np: "numpy_shapes np" and orth: "numpy_svd_orthonormal np"
    and gain: "Orthogonal.gain self = 1"
  shows "orthogonality_invariant (fst (Orthogonal_call np self [m, n] dtype w))"
proof -
  define a where "a = fst (normal np 0 1 [m, n]
                         (case Orthogonal.seed self of None \<Rightarrow> np_random w | Some s \<Rightarrow> random_seed np s))"
  from Orthogonal_call_rank_2 [OF np, where m = m and n = n and self = self and w = w and dtype = dtype]
  obtain u s v g where
    usv: "svd np a False = (u, s, v)" and sa: "shape_of a = [m, n]"
    and la: "length (data_of a) = m * n"
    and call: "Orthogonal_call np self [m, n] dtype w
             = (Inr (scalar_mul (Orthogonal.gain self) (if n \<le> m then u else v)), w\<lparr>np_random := g\<rparr>)"
    unfolding a_def by blast
  from np sa la usv have su: "shape_of u = [m, min m n]" and sv: "shape_of v = [min m n, n]"
    unfolding numpy_shapes_def by blast+
  from orth sa la usv have gu: "gram u = np_identity (min m n)"
    and gv: "gram_rows v = np_identity (min m n)"
    unfolding numpy_svd_orthonormal_def by blast+
  show ?thesis
  proof (cases "n \<le> m")
    case True
    then show ?thesis using su gu by (simp add: call gain scalar_mul_one orthogonality_invariant_def min_def)
  next
    case False
    then show ?thesis using sv gv by (simp add: call gain scalar_mul_one orthogonality_invariant_def min_def)
  qed
qed

text \<open>The numpy of identity factors keeps the promises of the decomposition.\<close>

lemma shape_of_np_eye: "shape_of (np_eye m n) = [m, n]"
  by (simp add: np_eye_def)

lemma length_np_eye: "length (data_of (np_eye m n)) = m * n"
  by (simp add: np_eye_def length_concat comp_def sum_list_triv)

lemma np_eye_entry:
  assumes "i < m" "j < n"
  shows "data_of (np_eye m n) ! (i * n + j) = (if i = j then 1 else 0)"
proof -
  have "concat (map (\<lambda>i. map (\<lambda>j. if i = j then 1 else (0::real)) [0..<n]) [0..<m]) ! (i * n + j)
        = (map (\<lambda>i. map (\<lambda>j. if i = j then 1 else (0::real)) [0..<n]) [0..<m]) ! i ! j"
    using assms by (intro nth_concat_rows) auto
  then show ?thesis using assms by (simp add: np_eye_def)
qed

lemma sum_list_delta:
  assumes "j < m"
  shows "sum_list (map (\<lambda>i. (if i = j then 1 else 0) * (if i = k then 1 else (0::real))) [0..<m])
           = (if j = k then 1 else 0)"
proof -
  have "(\<lambda>i. (if i = j then 1 else 0) * (if i = k then 1 else (0::real)))
          = (\<lambda>i. if i = j then (if j = k then 1 else 0) else 0)"
    by (rule ext) simp
  then have "sum_list (map (\<lambda>i. (if i = j then 1 else 0) * (if i = k then 1 else (0::real))) [0..<m])
          = (\<Sum>i\<in>{0..<m}. if i = j then (if j = k then 1 else 0) else 0)"
    by (simp add: interv_sum_list_conv_sum_set_nat)
  also have "\<dots> = (if j = k then 1 else 0)" using assms by simp
  finally show ?thesis .
qed

lemma gram_np_eye:
  assumes "k \<le> m"
  shows "gram (np_eye m k) = np_identity k"
proof -
  have inner: "sum_list (map (\<lambda>i. data_of (np_eye m k) ! (i * k + j) * data_of (np_eye m k) ! (i * k + l))
                   [0..<m]) = (if j = l then 1 else 0)" if "j < k" "l < k" for j l
  proof -
    have "map (\<lambda>i. data_of (np_eye m k) ! (i * k + j) * data_of (np_eye m k) ! (i * k + l)) [0..<m]
            = map (\<lambda>i. (if i = j then 1 else 0) * (if i = l then 1 else 0)) [0..<m]"
      using that by (simp add: np_eye_entry cong: map_cong)
    moreover have "j < m" using that assms by simp
    ultimately show ?thesis by (simp only: sum_list_delta)
  qed
  have "map (\<lambda>j. map (\<lambda>l. sum_list (map (\<lambda>i. data_of (np_eye m k) ! (i * k + j)
                                              * data_of (np_eye m k) ! (i * k + l)) [0..<m]))
                    [0..<k]) [0..<k]
        = map (\<lambda>j. map (\<lambda>l. if j = l then 1 else 0) [0..<k]) [0..<k]"
    by (simp add: inner cong: map_cong)
  then show ?thesis
    by (simp only: gram_def shape_of_np_eye np_identity_def list.case)
qed

lemma sum_list_delta_cols:
  assumes "i < n"
  shows "sum_list (map (\<lambda>j. (if i = j then 1 else 0) * (if l = j then 1 else (0::real))) [0..<n])
           = (if i = l then 1 else 0)"
proof -
  have "(\<lambda>j. (if i = j then 1 else 0) * (if l = j then 1 else (0::real)))
          = (\<lambda>j. (if j = i then 1 else 0) * (if j = l then 1 else (0::real)))"
    by (rule ext) auto
  then show ?thesis using sum_list_delta [OF assms, of l] by simp
qed

lemma gram_rows_np_eye:
  assumes "k \<le> n"
  shows "gram_rows (np_eye k n) = np_identity k"
proof -
  have inner: "sum_list (map (\<lambda>j. data_of (np_eye k n) ! (i * n + j) * data_of (np_eye k n) ! (l * n + j))
                   [0..<n]) = (if i = l then 1 else 0)" if "i < k" "l < k" for i l
  proof -
    have "map (\<lambda>j. data_of (np_eye k n) ! (i * n + j) * data_of (np_eye k n) ! (l * n + j)) [0..<n]
            = map (\<lambda>j. (if i = j then 1 else 0) * (if l = j then 1 else 0)) [0..<n]"
      using that by (simp add: np_eye_entry cong: map_cong)
    moreover have "i < n" using that assms by simp
    ultimately show ?thesis by (simp only: sum_list_delta_cols)
  qed
  have "map (\<lambda>i. map (\<lambda>l. sum_list (map (\<lambda>j. data_of (np_eye k n) ! (i * n + j)
                                              * data_of (np_eye k n) ! (l * n + j)) [0..<n]))
                    [0..<k]) [0..<k]
        = map (\<lambda>i. map (\<lambda>l. if i = l then 1 else 0) [0..<k]) [0..<k]"
    by (simp add: inner cong: map_cong)
  then show ?thesis
    by (simp only: gram_rows_def shape_of_np_eye np_identity_def list.case)
qed

lemma numpy_shapes_eye: "numpy_shapes eye_numpy"
  by (auto simp: numpy_shapes_def eye_numpy_def counting_numpy_def counting_normal_def eye_svd_def
      shape_of_np_eye length_np_eye)

lemma numpy_svd_orthonormal_eye: "numpy_svd_orthonormal eye_numpy"
  by (auto simp: numpy_svd_orthonormal_def eye_numpy_def counting_numpy_def eye_svd_def
      gram_np_eye gram_rows_np_eye)

subsection \<open>ConvolutionAware\<close>

lemma true_div_2_fans:
  assumes "length shape \<noteq> 3" "length shape \<noteq> 4" "list_all (\<lambda>d. 0 < d) shape"
    and "fmt \<in> {''channels_first'', ''channels_last''}"
  shows "\<exists>fan_in fan_out variance.
           compute_fans shape fmt = Inr (fan_in, fan_out) \<and> true_div_2 fan_in = Inr variance"
proof (cases "length shape = 2")
  case True
  then have "0 < shape ! 0" using assms(3) by (simp add: list_all_length)
  then show ?thesis using True by (simp add: compute_fans_def)
next
  case False
  then show ?thesis using assms by (auto simp: compute_fans_def Let_def)
qed

lemma ConvolutionAware_call_fallback:
  assumes "length shape \<noteq> 3" "length shape \<noteq> 4" "list_all (\<lambda>d. 0 < d) shape"
    and "K_image_data_format K \<in> {''channels_first'', ''channels_last''}"
  shows "ConvolutionAware_call np K self shape w = Orthogonal_call np (orthogonal self) shape None w"
proof -
  from true_div_2_fans [OF assms] obtain fan_in fan_out variance where
    "compute_fans shape (K_image_data_format K) = Inr (fan_in, fan_out)"
    "true_div_2 fan_in = Inr variance" by blast
  then show ?thesis using assms(1,2) by (simp add: ConvolutionAware_call_def)
qed

lemma Orthogonal_eye_2x3:
  "Orthogonal_call eye_numpy (Orthogonal_init 1 None) [2, 3] None world0
     = (Inr (NDArray [2, 3] [1, 0, 0, 0, 1, 0]), \<lparr>np_random = 6, stdout = []\<rparr>)"
  by (simp add: Orthogonal_call_def Orthogonal_init_def eye_numpy_def counting_numpy_def
      counting_normal_def eye_svd_def np_eye_def reshape_def getitem2_def scalar_mul_def upt_rec
      world0_def Let_def)

text \<open>
  C5.  On a shape of positive dimensions whose length is neither 3 nor 4, with a
  backend layout that is one of the two layouts, a call of \<^verbatim>\<open>ConvolutionAware\<close>
  returns what \<^verbatim>\<open>Orthogonal()\<close>, of gain 1 and without seed, returns on that shape,
  and leaves the same state.  On a shape of rank 2 its result has the orthogonality
  invariant, given that numpy returns arrays of the documented shapes and a
  decomposition with orthonormal factors.
\<close>

theorem ConvolutionAware_falls_back_to_Orthogonal:
  assumes "length shape \<noteq> 3" "length shape \<noteq> 4" "list_all (\<lambda>d. 0 < d) shape"
    and "K_image_data_format K \<in> {''channels_first'', ''channels_last''}"
  shows "ConvolutionAware_call np K (ConvolutionAware_init e sd) shape w
           = Orthogonal_call np (Orthogonal_init 1 None) shape None w
         \<and> (length shape = 2 \<longrightarrow> numpy_shapes np \<longrightarrow> numpy_svd_orthonormal np \<longrightarrow>
              orthogonality_invariant
                (fst (ConvolutionAware_call np K (ConvolutionAware_init e sd) shape w)))"
proof -
  have eq: "ConvolutionAware_call np K (ConvolutionAware_init e sd) shape w
           = Orthogonal_call np (Orthogonal_init 1 None) shape None w"
    using ConvolutionAware_call_fallback [OF assms, of np "ConvolutionAware_init e sd" w]
    by (simp add: ConvolutionAware_init_def)
  have "orthogonality_invariant (fst (Orthogonal_call np (Orthogonal_init 1 None) shape None w))"
    if len: "length shape = 2" and np: "numpy_shapes np" and orth: "numpy_svd_orthonormal np"
  proof -
    from len obtain m n where shape: "shape = [m, n]"
      by (cases shape; cases "tl shape") auto
    have "Orthogonal.gain (Orthogonal_init 1 None) = 1" by (simp add: Orthogonal_init_def)
    from Orthogonal_call_orthogonal [OF np orth this] show ?thesis by (simp add: shape)
  qed
  with eq show ?thesis by simp
qed

theorem ConvolutionAware_falls_back_to_Orthogonal_witness:
  "length [2 :: nat, 3] \<noteq> 3 \<and> length [2 :: nat, 3] \<noteq> 4 \<and> list_all (\<lambda>d. 0 < d) [2 :: nat, 3]
   \<and> K_image_data_format (symbolic_backend :: (sym_tensor, nat world) backend)
        \<in> {''channels_first'', ''channels_last''}
   \<and> length [2 :: nat, 3] = 2 \<and> numpy_shapes eye_numpy \<and> numpy_svd_orthonormal eye_numpy
   \<and> ConvolutionAware_call eye_numpy (symbolic_backend :: (sym_tensor, nat world) backend)
        (ConvolutionAware_init (5 / 100) (Some 1)) [2, 3] world0
       = (Inr (NDArray [2, 3] [1, 0, 0, 0, 1, 0]), \<lparr>np_random = 6, stdout = []\<rparr>)
   \<and> orthogonality_invariant (Inr (NDArray [2, 3] [1, 0, 0, 0, 1, 0]))"
proof -
  have h: "length [2 :: nat, 3] \<noteq> 3" "length [2 :: nat, 3] \<noteq> 4" "list_all (\<lambda>d. 0 < d) [2 :: nat, 3]"
    "K_image_data_format (symbolic_backend :: (sym_tensor, nat world) backend)
        \<in> {''channels_first'', ''channels_last''}"
    by (simp_all add: symbolic_backend_def)
  note t = ConvolutionAware_falls_back_to_Orthogonal [OF h, of eye_numpy "5 / 100" "Some 1" world0]
  from t have c: "ConvolutionAware_call eye_numpy (symbolic_backend :: (sym_tensor, nat world) backend)
        (ConvolutionAware_init (5 / 100) (Some 1)) [2, 3] world0
       = (Inr (NDArray [2, 3] [1, 0, 0, 0, 1, 0]), \<lparr>np_random = 6, stdout = []\<rparr>)"
    by (simp add: Orthogonal_eye_2x3)
  from t numpy_shapes_eye numpy_svd_orthonormal_eye
  have "orthogonality_invariant
          (fst (ConvolutionAware_call eye_numpy (symbolic_backend :: (sym_tensor, nat world) backend)
                 (ConvolutionAware_init (5 / 100) (Some 1)) [2, 3] world0))"
    by (auto simp del: One_nat_def)
  then have "orthogonality_invariant (Inr (NDArray [2, 3] [1, 0, 0, 0, 1, 0]))"
    by (simp only: c fst_conv)
  with c h numpy_shapes_eye numpy_svd_orthonormal_eye show ?thesis by simp
qed

text \<open>The attribute \<^verbatim>\<open>seed\<close> of \<^verbatim>\<open>ConvolutionAware\<close> has no effect on a call, on any shape.\<close>

lemma create_basis_seed:
  "create_basis np K (self\<lparr>ConvolutionAware.seed := sd\<rparr>) filters n g = create_basis np K self filters n g"
  by (simp add: create_basis_def)

lemma make_filters_seed:
  "make_filters np (self\<lparr>ConvolutionAware.seed := sd\<rparr>) fft ks xs g = make_filters np self fft ks xs g"
  by (induction xs arbitrary: g) (simp_all add: split_beta)

lemma filters_loop_seed:
  "filters_loop np K (self\<lparr>ConvolutionAware.seed := sd\<rparr>) fft ks kfs st n init g
     = filters_loop np K self fft ks kfs st n init g"
  by (induction n arbitrary: init g)
    (simp_all add: create_basis_seed make_filters_seed split_beta split: sum.splits)

lemma fourier_kernel_seed:
  "fourier_kernel np K (self\<lparr>ConvolutionAware.seed := sd\<rparr>) variance st fs td ks fft w
     = fourier_kernel np K self variance st fs td ks fft w"
  by (simp add: fourier_kernel_def filters_loop_seed)

lemma ConvolutionAware_seed_unused:
  "ConvolutionAware_call np K (self\<lparr>ConvolutionAware.seed := sd\<rparr>) shape w
     = ConvolutionAware_call np K self shape w"
  by (simp add: ConvolutionAware_call_def fourier_kernel_seed Let_def split: sum.splits prod.splits)

lemma ConvolutionAware_counting_2x2:
  "ConvolutionAware_call counting_numpy (symbolic_backend :: (sym_tensor, nat world) backend)
      (ConvolutionAware_init e sd) [2, 2] (w :: nat world) =
     (Inr (NDArray [2, 2] [real (np_random w), real (np_random w) + 1, real (np_random w) + 2,
                           real (np_random w) + 3]),
      w\<lparr>np_random := np_random w + 4\<rparr>)"
  by (simp add: ConvolutionAware_call_def compute_fans_def ConvolutionAware_init_def
      Orthogonal_counting_2x2 symbolic_backend_def Let_def)

text \<open>
  C2.  \<^verbatim>\<open>ConvolutionAware\<close> stores its seed and never seeds the generator.  On the
  counting numpy, two calls in a row of one instance of seed 1 on the shape
  \<^verbatim>\<open>(2, 2)\<close> return two different arrays: the second call draws where the first
  one stopped.
\<close>

theorem ConvolutionAware_repeated_calls_differ:
  "(let self = ConvolutionAware_init (5 / 100) (Some 1);
        (r1, w1) = ConvolutionAware_call counting_numpy
                     (symbolic_backend :: (sym_tensor, nat world) backend) self [2, 2] world0;
        (r2, w2) = ConvolutionAware_call counting_numpy
                     (symbolic_backend :: (sym_tensor, nat world) backend) self [2, 2] w1
    in r1 = Inr (NDArray [2, 2] [0, 1, 2, 3]) \<and> r2 = Inr (NDArray [2, 2] [4, 5, 6, 7]) \<and> r1 \<noteq> r2)"
  by (simp add: ConvolutionAware_counting_2x2 world0_def)

subsection \<open>Effects of a call\<close>

lemma fourier_kernel_state:
  "\<exists>g. snd (fourier_kernel np K self variance st fs td ks fft w) = w\<lparr>np_random := g\<rparr>"
  by (auto simp: fourier_kernel_def Let_def split_beta split: sum.splits)



text \<open>On rank 4, with a layout of the backend that the fan calculator accepts, one line is printed.\<close>

lemma ConvolutionAware_rank_4_prints:
  assumes "length shape = 4"
    and "K_image_data_format K \<in> {''channels_first'', ''channels_last''}"
  shows "stdout (snd (ConvolutionAware_call np K self shape w))
           = stdout w @ [[shape ! 0, shape ! 1, shape ! 2, shape ! 3]]"
proof -
  have "\<exists>fan_in fan_out. compute_fans shape (K_image_data_format K) = Inr (NpInt64 fan_in, NpInt64 fan_out)"
    using assms by (auto simp: compute_fans_def Let_def)
  then obtain fan_in fan_out where
    f: "compute_fans shape (K_image_data_format K) = Inr (NpInt64 fan_in, NpInt64 fan_out)" by blast
  from fourier_kernel_state [of np K self "2 / real_of_int fan_in" "shape ! 2" "shape ! 3" "[2, 3, 1, 0]"
          "[shape ! 0, shape ! 1]" "irfft2 np"
          "w\<lparr>stdout := stdout w @ [[shape ! 0, shape ! 1, shape ! 2, shape ! 3]]\<rparr>"]
  obtain g where "snd (fourier_kernel np K self (2 / real_of_int fan_in) (shape ! 2) (shape ! 3) [2, 3, 1, 0]
              [shape ! 0, shape ! 1] (irfft2 np)
              (w\<lparr>stdout := stdout w @ [[shape ! 0, shape ! 1, shape ! 2, shape ! 3]]\<rparr>))
            = w\<lparr>stdout := stdout w @ [[shape ! 0, shape ! 1, shape ! 2, shape ! 3]]\<rparr>\<lparr>np_random := g\<rparr>"
    by blast
  then show ?thesis using assms(1) by (simp add: ConvolutionAware_call_def f Let_def)
qed




end
